theory Spec2Isabelle
  imports Complex_Main "HOL-Library.Log_Nat"
begin

section \<open>JavaScript values used by the image editor\<close>

subsection \<open>Strings\<close>

text \<open>
  A JavaScript string is modelled as a \<^typ>\<open>string\<close>; one \<^typ>\<open>char\<close> stands for one
  code unit below 256. All delimiters the sources look for (comma, semicolon, slash, colon)
  are in that range, and so are the white space and line terminators listed below.
  A value of type \<open>string | null | undefined\<close> is a \<^typ>\<open>string option\<close>.
\<close>

definition truthy :: "string option \<Rightarrow> bool" where
  \<comment> \<open>\<^verbatim>\<open>if (v)\<close> for \<^verbatim>\<open>v: string | null | undefined\<close>: the empty string is falsy too\<close>
  "truthy v = (case v of None \<Rightarrow> False | Some s \<Rightarrow> s \<noteq> [])"

fun split_on :: "char \<Rightarrow> string \<Rightarrow> string list" where
  \<comment> \<open>\<^verbatim>\<open>s.split(sep)\<close> for a one-character separator\<close>
  "split_on sep [] = [[]]"
| "split_on sep (c # cs) =
     (if c = sep then [] # split_on sep cs
      else (case split_on sep cs of
              [] \<Rightarrow> [[c]]
            | seg # segs \<Rightarrow> (c # seg) # segs))"

definition index1 :: "'a list \<Rightarrow> 'a option" where
  \<comment> \<open>\<^verbatim>\<open>xs[1]\<close>: \<open>None\<close> is \<^verbatim>\<open>undefined\<close>\<close>
  "index1 xs = (case xs of _ # y # _ \<Rightarrow> Some y | _ \<Rightarrow> None)"

fun startsWith :: "string \<Rightarrow> string \<Rightarrow> bool" where
  \<comment> \<open>\<^verbatim>\<open>s.startsWith(p)\<close>, written \<open>startsWith p s\<close>\<close>
  "startsWith [] s = True"
| "startsWith (p # ps) [] = False"
| "startsWith (p # ps) (c # cs) = (p = c \<and> startsWith ps cs)"

definition whitespace :: "char \<Rightarrow> bool" where
  \<comment> \<open>white space and line terminators below 256: TAB, LF, VT, FF, CR, SP, NBSP\<close>
  "whitespace c = (c \<in> {CHR 0x09, CHR 0x0A, CHR 0x0B, CHR 0x0C, CHR 0x0D, CHR 0x20, CHR 0xA0})"

definition trim :: "string \<Rightarrow> string" where
  \<comment> \<open>\<^verbatim>\<open>s.trim()\<close>\<close>
  "trim s = rev (dropWhile whitespace (rev (dropWhile whitespace s)))"

definition line_terminator :: "char \<Rightarrow> bool" where
  \<comment> \<open>the characters a regular expression's \<^verbatim>\<open>.\<close> refuses\<close>
  "line_terminator c = (c = CHR 0x0A \<or> c = CHR 0x0D)"

fun lazy_until_semicolon :: "string \<Rightarrow> string option" where
  \<comment> \<open>\<^verbatim>\<open>(.*?);\<close> anchored at the head of the argument: the capture, if it matches\<close>
  "lazy_until_semicolon [] = None"
| "lazy_until_semicolon (c # cs) =
     (if c = CHR '';'' then Some []
      else if line_terminator c then None
      else map_option ((#) c) (lazy_until_semicolon cs))"

fun match_data_lazy :: "string \<Rightarrow> string option" where
  \<comment> \<open>\<^verbatim>\<open>s.match(/data:(.*?);/)?.[1]\<close>: the capture of the leftmost match\<close>
  "match_data_lazy [] = None"
| "match_data_lazy (c # cs) =
     (case (if startsWith ''data:'' (c # cs) then lazy_until_semicolon (drop 5 (c # cs)) else None) of
        Some m \<Rightarrow> Some m
      | None \<Rightarrow> match_data_lazy cs)"

definition greedy_until_semicolon :: "string \<Rightarrow> string option" where
  \<comment> \<open>\<^verbatim>\<open>([^;]+);\<close> anchored at the head of the argument\<close>
  "greedy_until_semicolon s =
     (let m = takeWhile (\<lambda>c. c \<noteq> CHR '';'') s
      in if m \<noteq> [] \<and> length m < length s then Some m else None)"

fun match_data_greedy :: "string \<Rightarrow> string option" where
  \<comment> \<open>\<^verbatim>\<open>s.match(/data:([^;]+);/)?.[1]\<close>\<close>
  "match_data_greedy [] = None"
| "match_data_greedy (c # cs) =
     (case (if startsWith ''data:'' (c # cs) then greedy_until_semicolon (drop 5 (c # cs)) else None) of
        Some m \<Rightarrow> Some m
      | None \<Rightarrow> match_data_greedy cs)"

fun digits :: "nat \<Rightarrow> string" where
  \<comment> \<open>the decimal digits of a natural number, as a template literal prints it\<close>
  "digits n = (if n < 10 then [char_of (48 + n)] else digits (n div 10) @ [char_of (48 + n mod 10)])"

definition int_to_string :: "int \<Rightarrow> string" where
  "int_to_string i = (if i < 0 then CHR ''-'' # digits (nat (- i)) else digits (nat i))"

subsection \<open>Numbers\<close>

text \<open>
  A JavaScript number is an IEEE 754 double. The finite doubles are rationals, so a number
  is a rational or one of the three special values. Every arithmetic operation rounds its
  exact result to the nearest double, ties to the even significand (\<open>fl64\<close>), with
  gradual underflow below \<open>2\<^sup>-\<^sup>1\<^sup>0\<^sup>2\<^sup>2\<close> and overflow to infinity. The sign of zero is
  not modelled.
\<close>

datatype number = Fin rat | NaN | PosInf | NegInf

definition pow2 :: "int \<Rightarrow> rat" where
  "pow2 e = (if 0 \<le> e then 2 ^ nat e else 1 / 2 ^ nat (- e))"

definition binade :: "rat \<Rightarrow> int" where
  \<comment> \<open>for \<open>x \<noteq> 0\<close>, the exponent \<open>e\<close> with \<open>2\<^sup>e \<le> |x| < 2\<^sup>e\<^sup>+\<^sup>1\<close>\<close>
  "binade x = (if 1 \<le> \<bar>x\<bar> then bitlen \<lfloor>\<bar>x\<bar>\<rfloor> - 1 else - bitlen (\<lceil>1 / \<bar>x\<bar>\<rceil> - 1))"

definition round_ties_even :: "rat \<Rightarrow> int" where
  "round_ties_even x =
     (let f = \<lfloor>x\<rfloor>; r = x - of_int f
      in if r < 1 / 2 then f else if 1 / 2 < r then f + 1 else if even f then f else f + 1)"

definition fl64 :: "rat \<Rightarrow> number" where
  \<comment> \<open>the double nearest to an exact result\<close>
  "fl64 x =
     (if x = 0 then Fin 0
      else let e = max (binade x) (- 1022);
               ulp = pow2 (e - 52);
               y = of_int (round_ties_even (x / ulp)) * ulp
           in if pow2 1024 \<le> \<bar>y\<bar> then (if 0 < x then PosInf else NegInf) else Fin y)"

definition sign_of :: "number \<Rightarrow> int" where
  "sign_of a = (case a of Fin x \<Rightarrow> (if x < 0 then - 1 else if x = 0 then 0 else 1)
                | NaN \<Rightarrow> 0 | PosInf \<Rightarrow> 1 | NegInf \<Rightarrow> - 1)"

definition js_mul :: "number \<Rightarrow> number \<Rightarrow> number" where
  \<comment> \<open>\<^verbatim>\<open>a * b\<close>\<close>
  "js_mul a b =
     (case (a, b) of
        (NaN, _) \<Rightarrow> NaN
      | (_, NaN) \<Rightarrow> NaN
      | (Fin x, Fin y) \<Rightarrow> fl64 (x * y)
      | _ \<Rightarrow> (let s = sign_of a * sign_of b
              in if s = 0 then NaN else if 0 < s then PosInf else NegInf))"

definition js_div :: "number \<Rightarrow> number \<Rightarrow> number" where
  \<comment> \<open>\<^verbatim>\<open>a / b\<close>\<close>
  "js_div a b =
     (case (a, b) of
        (NaN, _) \<Rightarrow> NaN
      | (_, NaN) \<Rightarrow> NaN
      | (Fin x, Fin y) \<Rightarrow>
          (if y = 0 then (if x = 0 then NaN else if 0 < x then PosInf else NegInf)
           else fl64 (x / y))
      | (Fin x, _) \<Rightarrow> Fin 0
      | (_, Fin y) \<Rightarrow> (if sign_of a * (if y < 0 then - 1 else 1) > 0 then PosInf else NegInf)
      | _ \<Rightarrow> NaN)"

definition Math_round :: "number \<Rightarrow> number" where
  \<comment> \<open>\<^verbatim>\<open>Math.round(a)\<close>: the nearest integer, a tie going up\<close>
  "Math_round a = (case a of Fin x \<Rightarrow> Fin (of_int \<lfloor>x + 1 / 2\<rfloor>) | _ \<Rightarrow> a)"

definition js_gt :: "number \<Rightarrow> number \<Rightarrow> bool" where
  \<comment> \<open>\<^verbatim>\<open>a > b\<close>: false when either side is \<^verbatim>\<open>NaN\<close>\<close>
  "js_gt a b =
     (case (a, b) of
        (NaN, _) \<Rightarrow> False
      | (_, NaN) \<Rightarrow> False
      | (Fin x, Fin y) \<Rightarrow> y < x
      | (PosInf, PosInf) \<Rightarrow> False
      | (PosInf, _) \<Rightarrow> True
      | (_, NegInf) \<Rightarrow> a \<noteq> NegInf
      | _ \<Rightarrow> False)"

definition strict_neq :: "number \<Rightarrow> number \<Rightarrow> bool" where
  \<comment> \<open>\<^verbatim>\<open>a !== b\<close>: \<^verbatim>\<open>NaN\<close> differs from everything, itself included\<close>
  "strict_neq a b = (a = NaN \<or> b = NaN \<or> a \<noteq> b)"

definition or_zero :: "number \<Rightarrow> number" where
  \<comment> \<open>\<^verbatim>\<open>a || 0\<close>\<close>
  "or_zero a = (if a = NaN \<or> a = Fin 0 then Fin 0 else a)"


subsection \<open>Thrown values\<close>

datatype thrown = Error string | ProgressEvent
  \<comment> \<open>what a \<^verbatim>\<open>throw\<close> or a rejected promise carries: an \<^verbatim>\<open>Error\<close> with its message, or the
      event a \<^verbatim>\<open>FileReader\<close> hands to \<^verbatim>\<open>onerror\<close>, which has no \<^verbatim>\<open>message\<close>\<close>

definition message_or :: "thrown \<Rightarrow> string \<Rightarrow> string" where
  \<comment> \<open>\<^verbatim>\<open>err.message || fallback\<close>\<close>
  "message_or err fallback =
     (case err of Error m \<Rightarrow> (if m = [] then fallback else m) | ProgressEvent \<Rightarrow> fallback)"

definition template :: "string option \<Rightarrow> string" where
  \<comment> \<open>\<^verbatim>\<open>${v}\<close> inside a template literal\<close>
  "template v = (case v of None \<Rightarrow> ''undefined'' | Some s \<Rightarrow> s)"

section \<open>The platform and the remote service\<close>

text \<open>
  The sources call the browser (file reader, image decoder, canvas) and the remote
  generation service. These are parameters of the model, collected in a \<open>world\<close>.
  An awaited promise is taken at its outcome: resolved (\<open>Inr\<close>) or rejected (\<open>Inl\<close>).
  An exception raised inside an \<^verbatim>\<open>onload\<close> callback, which would leave the promise
  pending, is outside the model.
\<close>

record file_obj =
  file_name :: string
  file_type :: string

record inlineData =
  data :: string
  mimeType :: string

datatype response_part =
    InlineData "string option" "string option"  \<comment> \<open>\<^verbatim>\<open>part.inlineData\<close> with \<^verbatim>\<open>mimeType\<close> and \<^verbatim>\<open>data\<close>\<close>
  | TextPart string

record request =
  model :: string
  imagePart :: inlineData
  promptText :: string
  responseModalities :: "string list"

record image =
  src :: string
  img_width :: nat
  img_height :: nat

datatype drawing =
    DrawScaled image number number  \<comment> \<open>\<^verbatim>\<open>ctx.drawImage(img, 0, 0, w, h)\<close>\<close>
  | DrawPlain image                 \<comment> \<open>\<^verbatim>\<open>ctx.drawImage(img, 0, 0)\<close>\<close>

record canvas =
  cv_width :: number
  cv_height :: number
  cv_filter :: "string option"
  cv_drawn :: "drawing option"

record world =
  API_KEY :: "string option"                                 \<comment> \<open>\<^verbatim>\<open>process.env.API_KEY\<close>\<close>
  generateContent :: "request \<Rightarrow> thrown + response_part list"  \<comment> \<open>the parts of the first candidate\<close>
  readAsDataURL :: "file_obj \<Rightarrow> string option"                     \<comment> \<open>\<open>None\<close>: \<^verbatim>\<open>onerror\<close> fired\<close>
  loadImage :: "string \<Rightarrow> image option"                       \<comment> \<open>\<open>None\<close>: \<^verbatim>\<open>onerror\<close> fired\<close>
  getContext2d :: "number \<Rightarrow> number \<Rightarrow> bool"                  \<comment> \<open>a canvas of that size has a 2D context\<close>
  toDataURL :: "canvas \<Rightarrow> string \<Rightarrow> string"                   \<comment> \<open>\<^verbatim>\<open>canvas.toDataURL(mimeType)\<close>\<close>

section \<open>Image codec utilities\<close>

definition fileToGenerativePart :: "world \<Rightarrow> file_obj \<Rightarrow> thrown + inlineData" where
  "fileToGenerativePart w f =
     (case readAsDataURL w f of
        None \<Rightarrow> Inl ProgressEvent
      | Some dataUrl \<Rightarrow>
          (let base64Data = index1 (split_on CHR '','' dataUrl)
           in if truthy base64Data
              then (case base64Data of
                      Some b \<Rightarrow> Inr \<lparr>data = b, mimeType = file_type f\<rparr>
                    | None \<Rightarrow> Inl (Error ''Failed to read file as base64.''))
              else Inl (Error ''Failed to read file as base64.'')))"

definition dataUrlToGenerativePart :: "string \<Rightarrow> thrown + inlineData" where
  "dataUrlToGenerativePart dataUrl =
     (let mime = (case match_data_lazy dataUrl of Some m \<Rightarrow> m | None \<Rightarrow> ''image/png'');
          base64Data = index1 (split_on CHR '','' dataUrl)
      in if \<not> truthy base64Data then Inl (Error ''Invalid data URL for conversion.'')
         else (case base64Data of
                 Some b \<Rightarrow> Inr \<lparr>data = b, mimeType = mime\<rparr>
               | None \<Rightarrow> Inl (Error ''Invalid data URL for conversion.'')))"

section \<open>Edit request client\<close>

datatype effect =
    NewClient string         \<comment> \<open>\<^verbatim>\<open>new GoogleGenAI({ apiKey })\<close>\<close>
  | NetworkCall request      \<comment> \<open>\<^verbatim>\<open>ai.models.generateContent(...)\<close>\<close>

fun first_image :: "response_part list \<Rightarrow> string option" where
  \<comment> \<open>the loop over the response parts: the first part with inline data, as a data URL\<close>
  "first_image [] = None"
| "first_image (InlineData m d # ps) = Some (''data:'' @ template m @ '';base64,'' @ template d)"
| "first_image (TextPart t # ps) = first_image ps"

definition wrap_remote_failure :: "thrown \<Rightarrow> thrown" where
  \<comment> \<open>the \<^verbatim>\<open>catch\<close> block around the remote call\<close>
  "wrap_remote_failure err =
     (case err of
        Error m \<Rightarrow> Error (''Gemini API Error: '' @ m)
      | ProgressEvent \<Rightarrow> Error ''An unknown error occurred while contacting the Gemini API.'')"

definition editImageWithGemini ::
  "world \<Rightarrow> inlineData \<Rightarrow> string \<Rightarrow> (thrown + string option) \<times> effect list" where
  \<comment> \<open>the outcome, and the client constructions and network calls made on the way\<close>
  "editImageWithGemini w part prompt =
     (case API_KEY w of
        None \<Rightarrow> (Inl (Error ''API key is not configured. Please set the API_KEY environment variable.''), [])
      | Some apiKey \<Rightarrow>
          if apiKey = []
          then (Inl (Error ''API key is not configured. Please set the API_KEY environment variable.''), [])
          else (let req = \<lparr>model = ''gemini-2.5-flash-image'', imagePart = part,
                            promptText = prompt, responseModalities = [''IMAGE'']\<rparr>;
                    effects = [NewClient apiKey, NetworkCall req]
                in case generateContent w req of
                     Inl err \<Rightarrow> (Inl (wrap_remote_failure err), effects)
                   | Inr parts \<Rightarrow> (Inr (first_image parts), effects)))"

section \<open>Canvas transform utilities\<close>

definition resizeImage :: "world \<Rightarrow> string \<Rightarrow> number \<Rightarrow> number \<Rightarrow> thrown + string" where
  "resizeImage w imageUrl newWidth newHeight =
     (case loadImage w imageUrl of
        None \<Rightarrow> Inl (Error ''Failed to load image for resizing.'')
      | Some img \<Rightarrow>
          if \<not> getContext2d w newWidth newHeight then Inl (Error ''Could not get canvas context'')
          else (let cv = \<lparr>cv_width = newWidth, cv_height = newHeight, cv_filter = None,
                           cv_drawn = Some (DrawScaled img newWidth newHeight)\<rparr>;
                    mime = (if startsWith ''data:image/jpeg'' imageUrl then ''image/jpeg'' else ''image/png'')
                in Inr (toDataURL w cv mime)))"

definition applyCanvasFilter :: "world \<Rightarrow> string \<Rightarrow> string \<Rightarrow> thrown + string" where
  "applyCanvasFilter w imageUrl css_filter =
     (case loadImage w imageUrl of
        None \<Rightarrow> Inl (Error ''Failed to load image for applying filter.'')
      | Some img \<Rightarrow>
          if \<not> getContext2d w (Fin (of_nat (img_width img))) (Fin (of_nat (img_height img)))
          then Inl (Error ''Could not get canvas context'')
          else (let cv = \<lparr>cv_width = Fin (of_nat (img_width img)), cv_height = Fin (of_nat (img_height img)),
                           cv_filter = Some css_filter, cv_drawn = Some (DrawPlain img)\<rparr>;
                    mime = (if startsWith ''data:image/jpeg'' imageUrl then ''image/jpeg'' else ''image/png'')
                in Inr (toDataURL w cv mime)))"


section \<open>Application controller\<close>

subsection \<open>State\<close>

datatype resize_mode = Percentage | Dimensions

record resize_options =
  mode :: resize_mode
  percentage :: number
  ro_width :: number
  ro_height :: number
  isAspectRatioLocked :: bool

record dimensions =
  dim_width :: number
  dim_height :: number

record pixel_crop =
  crop_x :: number
  crop_y :: number
  crop_width :: number
  crop_height :: number

text \<open>
  The component's \<^verbatim>\<open>useState\<close> cells. The crop widget's live selection (\<^verbatim>\<open>crop\<close>) and the
  image element reference are left to the widget; the slider's \<^verbatim>\<open>contrast\<close> is an integer.
\<close>

record app_state =
  originalImage :: "file_obj option"
  prompt :: string
  editedImage :: "string option"
  finalImage :: "string option"
  isLoading :: bool
  isEnhancing :: bool
  error :: "string option"
  isCropModalOpen :: bool
  completedCrop :: "pixel_crop option"
  croppedImageUrl :: "string option"
  originalDimensions :: "dimensions option"
  resizeOptions :: resize_options
  contrast :: int

definition initial_state :: app_state where
  "initial_state =
     \<lparr>originalImage = None, prompt = [], editedImage = None, finalImage = None,
      isLoading = False, isEnhancing = False, error = None, isCropModalOpen = False,
      completedCrop = None, croppedImageUrl = None, originalDimensions = None,
      resizeOptions = \<lparr>mode = Percentage, percentage = Fin 100, ro_width = Fin 0,
                        ro_height = Fin 0, isAspectRatioLocked = True\<rparr>,
      contrast = 100\<rparr>"

subsection \<open>Resizing after generation\<close>

definition sourceWidth :: "app_state \<Rightarrow> dimensions \<Rightarrow> number" where
  \<comment> \<open>\<^verbatim>\<open>completedCrop?.width ?? originalDimensions.width\<close>\<close>
  "sourceWidth s od = (case completedCrop s of Some c \<Rightarrow> crop_width c | None \<Rightarrow> dim_width od)"

definition sourceHeight :: "app_state \<Rightarrow> dimensions \<Rightarrow> number" where
  "sourceHeight s od = (case completedCrop s of Some c \<Rightarrow> crop_height c | None \<Rightarrow> dim_height od)"

definition isResizingNeeded :: "app_state \<Rightarrow> bool" where
  "isResizingNeeded s =
     (case originalDimensions s of
        None \<Rightarrow> False
      | Some od \<Rightarrow>
          if mode (resizeOptions s) = Percentage \<and> strict_neq (percentage (resizeOptions s)) (Fin 100)
          then True
          else if mode (resizeOptions s) = Dimensions \<and>
                  (strict_neq (ro_width (resizeOptions s)) (sourceWidth s od) \<or>
                   strict_neq (ro_height (resizeOptions s)) (sourceHeight s od))
          then True
          else False)"

definition targetSize :: "app_state \<Rightarrow> dimensions \<Rightarrow> number \<times> number" where
  \<comment> \<open>\<^verbatim>\<open>targetWidth\<close> and \<^verbatim>\<open>targetHeight\<close> of \<^verbatim>\<open>processAndSetImage\<close>\<close>
  "targetSize s od =
     (if mode (resizeOptions s) = Percentage
      then (let scale = js_div (percentage (resizeOptions s)) (Fin 100)
            in (Math_round (js_mul (sourceWidth s od) scale),
                Math_round (js_mul (sourceHeight s od) scale)))
      else (ro_width (resizeOptions s), ro_height (resizeOptions s)))"

datatype canvas_call =
    ResizeCall string number number   \<comment> \<open>\<^verbatim>\<open>resizeImage(url, w, h)\<close>\<close>
  | FilterCall string string          \<comment> \<open>\<^verbatim>\<open>applyCanvasFilter(url, filter)\<close>\<close>

definition processAndSetImage ::
  "world \<Rightarrow> app_state \<Rightarrow> string \<Rightarrow> app_state \<Rightarrow> (thrown + app_state) \<times> canvas_call list" where
  \<comment> \<open>\<open>cl\<close> is the state the handler closed over, \<open>s\<close> the state the setters act on;
      the result is the state after, or what was thrown, with the canvas calls made\<close>
  "processAndSetImage w cl imageUrl s =
     (case originalDimensions cl of
        Some od \<Rightarrow>
          if isResizingNeeded cl
          then (let (targetWidth, targetHeight) = targetSize cl od
                in if js_gt targetWidth (Fin 0) \<and> js_gt targetHeight (Fin 0)
                   then (case resizeImage w imageUrl targetWidth targetHeight of
                           Inl err \<Rightarrow> (Inl err, [ResizeCall imageUrl targetWidth targetHeight])
                         | Inr finalImageUrl \<Rightarrow>
                             (Inr (s\<lparr>editedImage := Some finalImageUrl\<rparr>),
                              [ResizeCall imageUrl targetWidth targetHeight]))
                   else (Inr (s\<lparr>editedImage := Some imageUrl\<rparr>), []))
          else (Inr (s\<lparr>editedImage := Some imageUrl\<rparr>), [])
      | None \<Rightarrow> (Inr (s\<lparr>editedImage := Some imageUrl\<rparr>), []))"

subsection \<open>Generate and enhance\<close>

definition select_image_part :: "world \<Rightarrow> app_state \<Rightarrow> thrown + inlineData" where
  \<comment> \<open>the cropped image if there is one, else the uploaded file\<close>
  "select_image_part w cl =
     (if truthy (croppedImageUrl cl)
      then (case croppedImageUrl cl of
              Some u \<Rightarrow> dataUrlToGenerativePart u
            | None \<Rightarrow> Inl (Error ''No image available to process.''))
      else (case originalImage cl of
              Some f \<Rightarrow> fileToGenerativePart w f
            | None \<Rightarrow> Inl (Error ''No image available to process.'')))"

definition generate_begin :: "app_state \<Rightarrow> app_state" where
  \<comment> \<open>\<^verbatim>\<open>setIsLoading(true); setError(null); setEditedImage(null)\<close>\<close>
  "generate_begin s = s\<lparr>isLoading := True, error := None, editedImage := None\<rparr>"

definition generate_try :: "world \<Rightarrow> app_state \<Rightarrow> app_state \<Rightarrow> thrown + app_state" where
  \<comment> \<open>the \<^verbatim>\<open>try\<close> block of \<^verbatim>\<open>handleGenerateClick\<close>\<close>
  "generate_try w cl s =
     (case select_image_part w cl of
        Inl err \<Rightarrow> Inl err
      | Inr part \<Rightarrow>
          (case fst (editImageWithGemini w part (prompt cl)) of
             Inl err \<Rightarrow> Inl err
           | Inr editedImageUrl \<Rightarrow>
               if truthy editedImageUrl
               then (case editedImageUrl of
                       Some u \<Rightarrow> fst (processAndSetImage w cl u s)
                     | None \<Rightarrow> Inl (Error ''The API did not return an image. Please try a different prompt.''))
               else Inl (Error ''The API did not return an image. Please try a different prompt.'')))"

definition generate_resume :: "world \<Rightarrow> app_state \<Rightarrow> app_state \<Rightarrow> app_state" where
  \<comment> \<open>\<^verbatim>\<open>try\<close>, \<^verbatim>\<open>catch\<close> and \<^verbatim>\<open>finally\<close>\<close>
  "generate_resume w cl s =
     (case generate_try w cl s of
        Inr s' \<Rightarrow> s'
      | Inl err \<Rightarrow> s\<lparr>error := Some (message_or err ''An unexpected error occurred.'')\<rparr>)
     \<lparr>isLoading := False\<rparr>"

definition handleGenerateClick :: "world \<Rightarrow> app_state \<Rightarrow> app_state" where
  \<comment> \<open>one whole invocation, from the click to the end of \<^verbatim>\<open>finally\<close>\<close>
  "handleGenerateClick w s =
     (if (originalImage s = None \<and> \<not> truthy (croppedImageUrl s)) \<or> trim (prompt s) = []
      then s\<lparr>error := Some ''Please upload an image and enter a prompt.''\<rparr>
      else generate_resume w s (generate_begin s))"

definition ENHANCE_PROMPT :: string where
  "ENHANCE_PROMPT = ''Enhance the image quality, lighting, and colors to make it look professional and vibrant.''"

definition enhance_begin :: "app_state \<Rightarrow> app_state" where
  "enhance_begin s = s\<lparr>isEnhancing := True, error := None, editedImage := None\<rparr>"

definition enhance_try :: "world \<Rightarrow> app_state \<Rightarrow> app_state \<Rightarrow> thrown + app_state" where
  "enhance_try w cl s =
     (case select_image_part w cl of
        Inl err \<Rightarrow> Inl err
      | Inr part \<Rightarrow>
          (case fst (editImageWithGemini w part ENHANCE_PROMPT) of
             Inl err \<Rightarrow> Inl err
           | Inr editedImageUrl \<Rightarrow>
               if truthy editedImageUrl
               then (case editedImageUrl of
                       Some u \<Rightarrow> fst (processAndSetImage w cl u s)
                     | None \<Rightarrow> Inl (Error ''The API did not return an image. Please try again.''))
               else Inl (Error ''The API did not return an image. Please try again.'')))"

definition enhance_resume :: "world \<Rightarrow> app_state \<Rightarrow> app_state \<Rightarrow> app_state" where
  "enhance_resume w cl s =
     (case enhance_try w cl s of
        Inr s' \<Rightarrow> s'
      | Inl err \<Rightarrow> s\<lparr>error := Some (message_or err ''An unexpected error occurred.'')\<rparr>)
     \<lparr>isEnhancing := False\<rparr>"

definition handleEnhanceClick :: "world \<Rightarrow> app_state \<Rightarrow> app_state" where
  "handleEnhanceClick w s =
     (if originalImage s = None \<and> \<not> truthy (croppedImageUrl s)
      then s\<lparr>error := Some ''Please upload an image first.''\<rparr>
      else enhance_resume w s (enhance_begin s))"


subsection \<open>Resize options\<close>

definition sourceDims :: "app_state \<Rightarrow> (number \<times> number) option" where
  \<comment> \<open>\<^verbatim>\<open>completedCrop ?? originalDimensions\<close>, as (width, height)\<close>
  "sourceDims s =
     (case completedCrop s of
        Some c \<Rightarrow> Some (crop_width c, crop_height c)
      | None \<Rightarrow> (case originalDimensions s of
                   Some od \<Rightarrow> Some (dim_width od, dim_height od)
                 | None \<Rightarrow> None))"

definition handleWidthChange :: "number \<Rightarrow> app_state \<Rightarrow> app_state" where
  \<comment> \<open>the argument is \<^verbatim>\<open>e.target.valueAsNumber\<close>\<close>
  "handleWidthChange valueAsNumber s =
     (let newWidth = or_zero valueAsNumber;
          prev = resizeOptions s
      in case sourceDims s of
           Some (w, h) \<Rightarrow>
             if isAspectRatioLocked prev
             then (let aspectRatio = js_div h w
                   in s\<lparr>resizeOptions :=
                          prev\<lparr>ro_width := newWidth, ro_height := Math_round (js_mul newWidth aspectRatio)\<rparr>\<rparr>)
             else s\<lparr>resizeOptions := prev\<lparr>ro_width := newWidth\<rparr>\<rparr>
         | None \<Rightarrow> s\<lparr>resizeOptions := prev\<lparr>ro_width := newWidth\<rparr>\<rparr>)"

definition handleHeightChange :: "number \<Rightarrow> app_state \<Rightarrow> app_state" where
  "handleHeightChange valueAsNumber s =
     (let newHeight = or_zero valueAsNumber;
          prev = resizeOptions s
      in case sourceDims s of
           Some (w, h) \<Rightarrow>
             if isAspectRatioLocked prev
             then (let aspectRatio = js_div w h
                   in s\<lparr>resizeOptions :=
                          prev\<lparr>ro_height := newHeight, ro_width := Math_round (js_mul newHeight aspectRatio)\<rparr>\<rparr>)
             else s\<lparr>resizeOptions := prev\<lparr>ro_height := newHeight\<rparr>\<rparr>
         | None \<Rightarrow> s\<lparr>resizeOptions := prev\<lparr>ro_height := newHeight\<rparr>\<rparr>)"

definition handleResizeModeChange :: "resize_mode \<Rightarrow> app_state \<Rightarrow> app_state" where
  "handleResizeModeChange m s = s\<lparr>resizeOptions := (resizeOptions s)\<lparr>mode := m\<rparr>\<rparr>"

definition handlePercentageChange :: "number \<Rightarrow> app_state \<Rightarrow> app_state" where
  "handlePercentageChange valueAsNumber s =
     s\<lparr>resizeOptions := (resizeOptions s)\<lparr>percentage := valueAsNumber\<rparr>\<rparr>"

definition toggleAspectRatioLock :: "app_state \<Rightarrow> app_state" where
  "toggleAspectRatioLock s =
     s\<lparr>resizeOptions := (resizeOptions s)\<lparr>isAspectRatioLocked := \<not> isAspectRatioLocked (resizeOptions s)\<rparr>\<rparr>"

subsection \<open>Upload and crop\<close>

definition handleImageChange :: "file_obj option \<Rightarrow> app_state \<Rightarrow> app_state" where
  \<comment> \<open>the argument is \<^verbatim>\<open>event.target.files?.[0]\<close>\<close>
  "handleImageChange picked s =
     (case picked of
        None \<Rightarrow> s
      | Some f \<Rightarrow> s\<lparr>originalImage := Some f, editedImage := None, error := None,
                     croppedImageUrl := None, completedCrop := None, contrast := 100\<rparr>)"

definition image_loaded :: "nat \<Rightarrow> nat \<Rightarrow> app_state \<Rightarrow> app_state" where
  \<comment> \<open>the \<^verbatim>\<open>onload\<close> callback set up by \<^verbatim>\<open>handleImageChange\<close>\<close>
  "image_loaded iw ih s =
     s\<lparr>originalDimensions := Some \<lparr>dim_width = Fin (of_nat iw), dim_height = Fin (of_nat ih)\<rparr>,
       resizeOptions := (resizeOptions s)\<lparr>ro_width := Fin (of_nat iw), ro_height := Fin (of_nat ih),
                                          percentage := Fin 100\<rparr>\<rparr>"

definition handleApplyCrop :: "string option \<Rightarrow> app_state \<Rightarrow> app_state" where
  \<comment> \<open>the argument is the PNG data URL the crop canvas produced, \<open>None\<close> when the image element
      or the 2D context is missing\<close>
  "handleApplyCrop rendered s =
     (case completedCrop s of
        None \<Rightarrow> s
      | Some c \<Rightarrow>
          (case rendered of
             None \<Rightarrow> s
           | Some url \<Rightarrow>
               s\<lparr>croppedImageUrl := Some url,
                 originalDimensions := Some \<lparr>dim_width = crop_width c, dim_height = crop_height c\<rparr>,
                 resizeOptions := (resizeOptions s)\<lparr>ro_width := crop_width c, ro_height := crop_height c,
                                                    percentage := Fin 100\<rparr>,
                 isCropModalOpen := False\<rparr>))"

definition handleResetCrop :: "app_state \<Rightarrow> app_state" where
  "handleResetCrop s = s\<lparr>croppedImageUrl := None\<rparr>"

definition reset_loaded :: "nat \<Rightarrow> nat \<Rightarrow> app_state \<Rightarrow> app_state" where
  \<comment> \<open>the \<^verbatim>\<open>onload\<close> callback set up by \<^verbatim>\<open>handleResetCrop\<close>\<close>
  "reset_loaded iw ih s =
     s\<lparr>originalDimensions := Some \<lparr>dim_width = Fin (of_nat iw), dim_height = Fin (of_nat ih)\<rparr>\<rparr>"

subsection \<open>Adjustments and download\<close>

definition applyAdjustments :: "world \<Rightarrow> bool \<Rightarrow> app_state \<Rightarrow> app_state \<times> canvas_call list" where
  \<comment> \<open>one run of the effect on \<^verbatim>\<open>[editedImage, contrast]\<close>. \<^verbatim>\<open>isMounted\<close> is true until the
      cleanup runs, which can only happen while the filter is awaited: \<open>superseded\<close> says
      that it did. The result is the state after and the canvas calls made.\<close>
  "applyAdjustments w superseded s =
     (if \<not> truthy (editedImage s) then (s\<lparr>finalImage := None\<rparr>, [])
      else (case editedImage s of
              None \<Rightarrow> (s\<lparr>finalImage := None\<rparr>, [])
            | Some edited \<Rightarrow>
                if contrast s \<noteq> 100
                then (let css = ''contrast('' @ int_to_string (contrast s) @ ''%)''
                      in case applyCanvasFilter w edited css of
                           Inr adjustedImage \<Rightarrow>
                             (if \<not> superseded then s\<lparr>finalImage := Some adjustedImage\<rparr> else s,
                              [FilterCall edited css])
                         | Inl err \<Rightarrow>
                             (if \<not> superseded then s\<lparr>finalImage := Some edited\<rparr> else s,
                              [FilterCall edited css]))
                else (s\<lparr>finalImage := Some edited\<rparr>, [])))"

definition download_extension :: "string \<Rightarrow> string" where
  \<comment> \<open>\<^verbatim>\<open>extension\<close> of \<^verbatim>\<open>handleDownload\<close>, the same in both versions of the component\<close>
  "download_extension url =
     (let mime = (case match_data_greedy url of
                    Some m \<Rightarrow> (if m = [] then ''image/png'' else m)
                  | None \<Rightarrow> ''image/png'');
          subtype = index1 (split_on CHR ''/'' mime)
      in if subtype = Some ''jpeg'' then ''jpg''
         else if truthy subtype then (case subtype of Some x \<Rightarrow> x | None \<Rightarrow> ''png'')
         else ''png'')"

definition handleDownload :: "app_state \<Rightarrow> string option" where
  \<comment> \<open>\<^verbatim>\<open>link.download\<close>, or \<open>None\<close> when nothing is downloaded\<close>
  "handleDownload s =
     (if \<not> truthy (finalImage s) then None
      else Some (''edited-image.'' @ download_extension (case finalImage s of Some u \<Rightarrow> u | None \<Rightarrow> [])))"

subsection \<open>The first version of the component\<close>

text \<open>
  The first version of the component has no crop, resize or adjustment: its state is the
  cells \<open>originalImage\<close>, \<open>prompt\<close>, \<open>editedImage\<close>, \<open>isLoading\<close> and \<open>error\<close>, and its handler
  sends the uploaded file as it is.
\<close>

definition handleGenerateClick_v1 :: "world \<Rightarrow> app_state \<Rightarrow> app_state" where
  "handleGenerateClick_v1 w s =
     (if originalImage s = None \<or> trim (prompt s) = []
      then s\<lparr>error := Some ''Please upload an image and enter a prompt.''\<rparr>
      else (let s1 = s\<lparr>isLoading := True, error := None, editedImage := None\<rparr>;
                outcome =
                  (case originalImage s of
                     None \<Rightarrow> Inl (Error ''No image available to process.'')
                   | Some f \<Rightarrow>
                       (case fileToGenerativePart w f of
                          Inl err \<Rightarrow> Inl err
                        | Inr part \<Rightarrow>
                            (case fst (editImageWithGemini w part (prompt s)) of
                               Inl err \<Rightarrow> Inl err
                             | Inr editedImageUrl \<Rightarrow>
                                 if truthy editedImageUrl
                                 then Inr (s1\<lparr>editedImage := editedImageUrl\<rparr>)
                                 else Inl (Error ''The API did not return an image. Please try a different prompt.''))))
            in (case outcome of
                  Inr s' \<Rightarrow> s'
                | Inl err \<Rightarrow> s1\<lparr>error := Some (message_or err ''An unexpected error occurred.'')\<rparr>)
               \<lparr>isLoading := False\<rparr>))"

subsection \<open>The controller as a transition system\<close>

text \<open>
  Between a click and the end of its handler the component goes on serving events, so a
  handler that awaits is two steps: the click runs it up to its first \<^verbatim>\<open>await\<close>, and a
  later step resumes it with the state it closed over. A control only fires when the last
  render left it enabled; an enabled button passes its handler's own guard, so the click
  always reaches the \<^verbatim>\<open>try\<close> block.
\<close>

datatype pending =
    Generating app_state   \<comment> \<open>a suspended \<^verbatim>\<open>handleGenerateClick\<close> and the state it closed over\<close>
  | Enhancing app_state    \<comment> \<open>a suspended \<^verbatim>\<open>handleEnhanceClick\<close>\<close>

record config =
  ui :: app_state
  inflight :: "pending list"

definition generate_disabled :: "app_state \<Rightarrow> bool" where
  \<comment> \<open>\<^verbatim>\<open>disabled={isLoading || isEnhancing || !originalImage || !prompt.trim()}\<close>\<close>
  "generate_disabled s = (isLoading s \<or> isEnhancing s \<or> originalImage s = None \<or> trim (prompt s) = [])"

definition enhance_disabled :: "app_state \<Rightarrow> bool" where
  \<comment> \<open>\<^verbatim>\<open>disabled={isLoading || isEnhancing || !originalImage}\<close>\<close>
  "enhance_disabled s = (isLoading s \<or> isEnhancing s \<or> originalImage s = None)"

definition resume :: "world \<Rightarrow> pending \<Rightarrow> app_state \<Rightarrow> app_state" where
  "resume w p s = (case p of Generating cl \<Rightarrow> generate_resume w cl s | Enhancing cl \<Rightarrow> enhance_resume w cl s)"

datatype event =
    ImageChange "file_obj option"
  | ImageLoaded nat nat
  | PromptChange string
  | GenerateClick
  | EnhanceClick
  | Settle nat                      \<comment> \<open>the suspended handler at that position resumes and finishes\<close>
  | OpenCrop
  | CancelCrop
  | CropComplete pixel_crop
  | ApplyCrop "string option"
  | ResetCrop
  | ResetLoaded nat nat
  | ResizeModeChange resize_mode
  | PercentageChange number
  | WidthChange number
  | HeightChange number
  | ToggleLock
  | ContrastChange int
  | Adjust bool                     \<comment> \<open>the adjustment effect runs\<close>

definition on_ui :: "(app_state \<Rightarrow> app_state) \<Rightarrow> config \<Rightarrow> config option" where
  "on_ui f c = Some (c\<lparr>ui := f (ui c)\<rparr>)"

definition step :: "world \<Rightarrow> config \<Rightarrow> event \<Rightarrow> config option" where
  \<comment> \<open>\<open>None\<close>: the control is disabled, or nothing is suspended at that position\<close>
  "step w c ev =
     (case ev of
        ImageChange picked \<Rightarrow> on_ui (handleImageChange picked) c
      | ImageLoaded iw ih \<Rightarrow> on_ui (image_loaded iw ih) c
      | PromptChange p \<Rightarrow>
          if originalImage (ui c) = None then None else on_ui (\<lambda>s. s\<lparr>prompt := p\<rparr>) c
      | GenerateClick \<Rightarrow>
          if generate_disabled (ui c) then None
          else Some \<lparr>ui = generate_begin (ui c), inflight = inflight c @ [Generating (ui c)]\<rparr>
      | EnhanceClick \<Rightarrow>
          if enhance_disabled (ui c) then None
          else Some \<lparr>ui = enhance_begin (ui c), inflight = inflight c @ [Enhancing (ui c)]\<rparr>
      | Settle i \<Rightarrow>
          if i < length (inflight c)
          then Some \<lparr>ui = resume w (inflight c ! i) (ui c),
                     inflight = take i (inflight c) @ drop (Suc i) (inflight c)\<rparr>
          else None
      | OpenCrop \<Rightarrow>
          if originalImage (ui c) = None then None else on_ui (\<lambda>s. s\<lparr>isCropModalOpen := True\<rparr>) c
      | CancelCrop \<Rightarrow> on_ui (\<lambda>s. s\<lparr>isCropModalOpen := False\<rparr>) c
      | CropComplete pc \<Rightarrow> on_ui (\<lambda>s. s\<lparr>completedCrop := Some pc\<rparr>) c
      | ApplyCrop rendered \<Rightarrow> on_ui (handleApplyCrop rendered) c
      | ResetCrop \<Rightarrow> on_ui handleResetCrop c
      | ResetLoaded iw ih \<Rightarrow> on_ui (reset_loaded iw ih) c
      | ResizeModeChange m \<Rightarrow>
          if originalImage (ui c) = None then None else on_ui (handleResizeModeChange m) c
      | PercentageChange v \<Rightarrow>
          if originalImage (ui c) = None then None else on_ui (handlePercentageChange v) c
      | WidthChange v \<Rightarrow>
          if originalImage (ui c) = None then None else on_ui (handleWidthChange v) c
      | HeightChange v \<Rightarrow>
          if originalImage (ui c) = None then None else on_ui (handleHeightChange v) c
      | ToggleLock \<Rightarrow>
          if originalImage (ui c) = None then None else on_ui toggleAspectRatioLock c
      | ContrastChange v \<Rightarrow>
          if \<not> truthy (editedImage (ui c)) then None else on_ui (\<lambda>s. s\<lparr>contrast := v\<rparr>) c
      | Adjust superseded \<Rightarrow> on_ui (\<lambda>s. fst (applyAdjustments w superseded s)) c)"

inductive reachable :: "world \<Rightarrow> config \<Rightarrow> bool" for w :: world where
  reach_init: "reachable w \<lparr>ui = initial_state, inflight = []\<rparr>"
| reach_step: "reachable w c \<Longrightarrow> step w c ev = Some c' \<Longrightarrow> reachable w c'"


section \<open>Reference definitions\<close>

text \<open>
  The base64 segment of a payload, in the words of the specification: what follows the
  first comma, up to the next comma or the end of the string; none without a comma.
\<close>

definition base64_segment :: "string \<Rightarrow> string option" where
  "base64_segment u =
     (if CHR '','' \<in> set u
      then Some (takeWhile (\<lambda>c. c \<noteq> CHR '','') (tl (dropWhile (\<lambda>c. c \<noteq> CHR '','') u)))
      else None)"


text \<open>
  A concrete world for the examples: a credential is configured, the service answers with
  a text part and a PNG, every file reads as a base64 data URL of its declared type, every
  image decodes as 4 by 3 pixels, a 2D context is always available, and \<^verbatim>\<open>toDataURL\<close> gives
  \<^verbatim>\<open>data:,\<close> for a canvas without pixels, as the HTML standard prescribes.
\<close>

definition demo_world :: world where
  "demo_world =
     \<lparr>API_KEY = Some ''key'',
      generateContent = (\<lambda>req. Inr [TextPart ''done'', InlineData (Some ''image/png'') (Some ''QUJD'')]),
      readAsDataURL = (\<lambda>f. Some (''data:'' @ file_type f @ '';base64,AAAA'')),
      loadImage = (\<lambda>u. Some \<lparr>src = u, img_width = 4, img_height = 3\<rparr>),
      getContext2d = (\<lambda>cw ch. True),
      toDataURL = (\<lambda>cv mime. if cv_width cv = Fin 0 \<or> cv_height cv = Fin 0 then ''data:,''
                              else ''data:'' @ mime @ '';base64,AAAA'')\<rparr>"


text \<open>
  States for the examples: a 400 by 300 image with the target width typed as 0, and a
  freshly loaded 6 by 13 image.
\<close>

definition zero_width_state :: app_state where
  "zero_width_state =
     (image_loaded 400 300 initial_state)
       \<lparr>resizeOptions := \<lparr>mode = Dimensions, percentage = Fin 100, ro_width = Fin 0,
                          ro_height = Fin 300, isAspectRatioLocked = False\<rparr>\<rparr>"

definition six_by_thirteen :: app_state where
  "six_by_thirteen = image_loaded 6 13 initial_state"

text \<open>
  What one generate request must leave behind: exactly one of an edited image and an error
  message, and the in-flight flag cleared. \<open>idle\<close>: no request is in flight.
\<close>

definition settled :: "app_state \<Rightarrow> bool" where
  "settled s =
     (((editedImage s \<noteq> None \<and> error s = None) \<or> (editedImage s = None \<and> truthy (error s)))
      \<and> \<not> isLoading s)"

definition cleared :: "app_state \<Rightarrow> bool" where
  \<comment> \<open>what a handler leaves behind when it starts a request: no edited image, no error\<close>
  "cleared s = (editedImage s = None \<and> error s = None)"

definition idle :: "app_state \<Rightarrow> bool" where
  "idle s = (\<not> isLoading s \<and> \<not> isEnhancing s)"

text \<open>
  The invariant of the controller: a flag is up exactly while its handler is suspended,
  and at most one handler is.
\<close>

definition flags_match :: "config \<Rightarrow> bool" where
  \<comment> \<open>a flag is up exactly while its handler is suspended, and at most one handler is\<close>
  "flags_match c =
     (case inflight c of
        [] \<Rightarrow> \<not> isLoading (ui c) \<and> \<not> isEnhancing (ui c)
      | [Generating cl] \<Rightarrow> isLoading (ui c) \<and> \<not> isEnhancing (ui c)
      | [Enhancing cl] \<Rightarrow> \<not> isLoading (ui c) \<and> isEnhancing (ui c)
      | _ \<Rightarrow> False)"

text \<open>A state for the examples: an uploaded image with a prompt.\<close>

definition ready_state :: app_state where
  "ready_state =
     initial_state\<lparr>originalImage := Some \<lparr>file_name = ''a.png'', file_type = ''image/png''\<rparr>,
                   prompt := ''make it blue''\<rparr>"

text \<open>The controller just after Generate was clicked in that first state.\<close>

definition generating_config :: config where
  "generating_config = \<lparr>ui = generate_begin ready_state, inflight = [Generating ready_state]\<rparr>"

section \<open>Properties of the string functions\<close>

lemma split_on_not_Nil: "split_on sep s \<noteq> []"
  by (induction s) (auto split: list.splits)

lemma hd_split_on: "hd (split_on sep s) = takeWhile (\<lambda>c. c \<noteq> sep) s"
  using split_on_not_Nil [of sep]
  by (induction s) (auto split: list.splits)

lemma index1_split_on:
  "index1 (split_on sep s) =
     (if sep \<in> set s then Some (takeWhile (\<lambda>c. c \<noteq> sep) (tl (dropWhile (\<lambda>c. c \<noteq> sep) s))) else None)"
proof (induction s)
  case Nil
  show ?case by (simp add: index1_def)
next
  case (Cons x xs)
  show ?case
  proof (cases "x = sep")
    case True
    obtain seg segs where sp: "split_on sep xs = seg # segs"
      using split_on_not_Nil [of sep xs] by (cases "split_on sep xs") auto
    have "seg = takeWhile (\<lambda>c. c \<noteq> sep) xs"
      using hd_split_on [of sep xs] sp by simp
    with True sp show ?thesis by (simp add: index1_def)
  next
    case False
    obtain seg segs where sp: "split_on sep xs = seg # segs"
      using split_on_not_Nil [of sep xs] by (cases "split_on sep xs") auto
    have "index1 (split_on sep (x # xs)) = index1 (split_on sep xs)"
      using False sp by (simp add: index1_def)
    with False Cons show ?thesis by simp
  qed
qed

lemma startsWith_take: "startsWith p s = (take (length p) s = p)"
  by (induction p s rule: startsWith.induct) auto

lemma takeWhile_until: "c \<notin> set m \<Longrightarrow> takeWhile (\<lambda>x. x \<noteq> c) (m @ c # rest) = m"
  by (induction m) auto

lemma dropWhile_until: "c \<notin> set m \<Longrightarrow> dropWhile (\<lambda>x. x \<noteq> c) (m @ c # rest) = c # rest"
  by (induction m) auto

lemma takeWhile_all: "c \<notin> set s \<Longrightarrow> takeWhile (\<lambda>x. x \<noteq> c) s = s"
  by (induction s) auto

lemma greedy_capture:
  "m \<noteq> [] \<Longrightarrow> CHR '';'' \<notin> set m \<Longrightarrow> greedy_until_semicolon (m @ CHR '';'' # rest) = Some m"
  by (simp add: greedy_until_semicolon_def takeWhile_until Let_def)

lemma greedy_no_semicolon:
  assumes "CHR '';'' \<notin> set s"
  shows "greedy_until_semicolon s = None"
proof -
  have tw: "takeWhile (\<lambda>c. c \<noteq> CHR '';'') s = s"
    using assms by (rule takeWhile_all)
  show ?thesis
    unfolding greedy_until_semicolon_def tw by (simp add: Let_def)
qed

lemma match_greedy_at_head:
  "m \<noteq> [] \<Longrightarrow> CHR '';'' \<notin> set m \<Longrightarrow> match_data_greedy (''data:'' @ m @ CHR '';'' # rest) = Some m"
  using greedy_capture [of m rest] by simp

lemma match_greedy_no_semicolon: "CHR '';'' \<notin> set s \<Longrightarrow> match_data_greedy s = None"
proof (induction s)
  case Nil
  show ?case by simp
next
  case (Cons c cs)
  have "CHR '';'' \<notin> set (drop 5 (c # cs))"
    using Cons.prems by (meson in_set_dropD)
  then have "greedy_until_semicolon (drop 5 (c # cs)) = None" by (rule greedy_no_semicolon)
  with Cons show ?case by simp
qed

lemma match_greedy_missing:
  "CHR '';'' \<notin> set d \<Longrightarrow> match_data_greedy (''data:;base64,'' @ d) = None"
  using match_greedy_no_semicolon [of d]
  by (simp add: greedy_until_semicolon_def)

lemma subtype_of:
  "CHR ''/'' \<notin> set ty \<Longrightarrow> CHR ''/'' \<notin> set sub \<Longrightarrow>
   index1 (split_on CHR ''/'' (ty @ CHR ''/'' # sub)) = Some sub"
  by (simp add: index1_split_on dropWhile_until takeWhile_all)

lemma subtype_none: "CHR ''/'' \<notin> set m \<Longrightarrow> index1 (split_on CHR ''/'' m) = None"
  by (simp add: index1_split_on)

lemma ext_of_mime:
  assumes "CHR '';'' \<notin> set ty" "CHR ''/'' \<notin> set ty" "CHR '';'' \<notin> set sub" "CHR ''/'' \<notin> set sub"
  shows "download_extension (''data:'' @ ty @ ''/'' @ sub @ '';'' @ rest) =
           (if sub = ''jpeg'' then ''jpg'' else if sub = [] then ''png'' else sub)"
proof -
  let ?m = "ty @ CHR ''/'' # sub"
  have m: "?m \<noteq> []" "CHR '';'' \<notin> set ?m" using assms by auto
  have "match_data_greedy (''data:'' @ ?m @ CHR '';'' # rest) = Some ?m"
    using m by (rule match_greedy_at_head)
  then have g: "match_data_greedy (''data:'' @ ty @ ''/'' @ sub @ '';'' @ rest) = Some ?m" by simp
  have s: "index1 (split_on CHR ''/'' ?m) = Some sub"
    using assms by (simp add: subtype_of)
  show ?thesis
    unfolding download_extension_def g
    using s by (simp add: Let_def truthy_def)
qed

lemma ext_no_subtype:
  assumes "m \<noteq> []" "CHR '';'' \<notin> set m" "CHR ''/'' \<notin> set m"
  shows "download_extension (''data:'' @ m @ '';'' @ rest) = ''png''"
proof -
  have "match_data_greedy (''data:'' @ m @ CHR '';'' # rest) = Some m"
    using assms(1,2) by (rule match_greedy_at_head)
  then have g: "match_data_greedy (''data:'' @ m @ '';'' @ rest) = Some m" by simp
  show ?thesis
    unfolding download_extension_def g
    using assms by (simp add: Let_def truthy_def subtype_none)
qed

lemma ext_no_match: "match_data_greedy u = None \<Longrightarrow> download_extension u = ''png''"
  by (simp add: download_extension_def Let_def truthy_def index1_def)


section \<open>Image codec utilities: properties\<close>

lemma index1_comma: "index1 (split_on CHR '','' u) = base64_segment u"
  by (simp add: index1_split_on base64_segment_def)

lemma dataUrl_result:
  "dataUrlToGenerativePart u =
     (case base64_segment u of
        None \<Rightarrow> Inl (Error ''Invalid data URL for conversion.'')
      | Some seg \<Rightarrow>
          if seg = [] then Inl (Error ''Invalid data URL for conversion.'')
          else Inr \<lparr>data = seg,
                    mimeType = (case match_data_lazy u of Some m \<Rightarrow> m | None \<Rightarrow> ''image/png'')\<rparr>)"
  by (simp add: dataUrlToGenerativePart_def index1_comma truthy_def Let_def split: option.splits)

lemma file_result:
  "readAsDataURL w f = Some u \<Longrightarrow>
   fileToGenerativePart w f =
     (case base64_segment u of
        None \<Rightarrow> Inl (Error ''Failed to read file as base64.'')
      | Some seg \<Rightarrow>
          if seg = [] then Inl (Error ''Failed to read file as base64.'')
          else Inr \<lparr>data = seg, mimeType = file_type f\<rparr>)"
  by (simp add: fileToGenerativePart_def index1_comma truthy_def Let_def split: option.splits)


text \<open>
  C5. For every input string, \<open>dataUrlToGenerativePart\<close>, and \<open>fileToGenerativePart\<close> on
  the string the reader produced, fails with its decoding error if and only if the payload
  has no non-empty base64 segment after its first comma; otherwise it returns a part that
  carries that segment and a MIME type (for a file, the file's declared type).
\<close>

theorem codec_fails_iff_no_base64_segment:
  "((\<exists>err. dataUrlToGenerativePart u = Inl err) = (\<not> truthy (base64_segment u)))
   \<and> (\<not> truthy (base64_segment u) \<longrightarrow>
        dataUrlToGenerativePart u = Inl (Error ''Invalid data URL for conversion.''))
   \<and> (\<forall>seg. base64_segment u = Some seg \<and> seg \<noteq> [] \<longrightarrow>
        (\<exists>mime. dataUrlToGenerativePart u = Inr \<lparr>data = seg, mimeType = mime\<rparr>))
   \<and> (readAsDataURL w f = Some u \<longrightarrow>
        ((\<exists>err. fileToGenerativePart w f = Inl err) = (\<not> truthy (base64_segment u)))
        \<and> (\<not> truthy (base64_segment u) \<longrightarrow>
             fileToGenerativePart w f = Inl (Error ''Failed to read file as base64.''))
        \<and> (\<forall>seg. base64_segment u = Some seg \<and> seg \<noteq> [] \<longrightarrow>
             fileToGenerativePart w f = Inr \<lparr>data = seg, mimeType = file_type f\<rparr>))"
  by (auto simp: dataUrl_result file_result truthy_def split: option.splits)


theorem codec_fails_iff_no_base64_segment_witness:
  "dataUrlToGenerativePart ''data:image/png;base64,AAAA'' = Inr \<lparr>data = ''AAAA'', mimeType = ''image/png''\<rparr>
   \<and> dataUrlToGenerativePart ''data:image/png;base64,'' = Inl (Error ''Invalid data URL for conversion.'')
   \<and> dataUrlToGenerativePart ''no comma here'' = Inl (Error ''Invalid data URL for conversion.'')
   \<and> fileToGenerativePart demo_world \<lparr>file_name = ''a.jpg'', file_type = ''image/jpeg''\<rparr>
       = Inr \<lparr>data = ''AAAA'', mimeType = ''image/jpeg''\<rparr>"
  using codec_fails_iff_no_base64_segment
      [of "''data:image/png;base64,AAAA''" demo_world "\<lparr>file_name = ''a.png'', file_type = ''image/png''\<rparr>"]
    codec_fails_iff_no_base64_segment
      [of "''data:image/png;base64,''" demo_world "\<lparr>file_name = ''a.png'', file_type = ''image/png''\<rparr>"]
    codec_fails_iff_no_base64_segment
      [of "''no comma here''" demo_world "\<lparr>file_name = ''a.png'', file_type = ''image/png''\<rparr>"]
    codec_fails_iff_no_base64_segment
      [of "''data:image/jpeg;base64,AAAA''" demo_world "\<lparr>file_name = ''a.jpg'', file_type = ''image/jpeg''\<rparr>"]
  by (simp add: base64_segment_def truthy_def demo_world_def dataUrlToGenerativePart_def
      index1_def Let_def)

section \<open>Download: properties\<close>

text \<open>
  C9. The extension of the download's file name follows the MIME type the data URL
  declares between \<^verbatim>\<open>data:\<close> and the first semicolon: \<^verbatim>\<open>image/jpeg\<close> gives \<^verbatim>\<open>jpg\<close>,
  \<^verbatim>\<open>image/png\<close> gives \<^verbatim>\<open>png\<close>, any other type with a subtype gives the subtype (a subtype
  \<^verbatim>\<open>jpeg\<close> is what gives \<^verbatim>\<open>jpg\<close>), and a MIME type that has no subtype or is missing gives
  \<^verbatim>\<open>png\<close>.
\<close>

theorem download_extension_follows_mime:
  "download_extension (''data:image/jpeg;'' @ rest) = ''jpg''
   \<and> download_extension (''data:image/png;'' @ rest) = ''png''
   \<and> (CHR '';'' \<notin> set ty \<and> CHR ''/'' \<notin> set ty \<and> CHR '';'' \<notin> set sub \<and> CHR ''/'' \<notin> set sub
        \<and> sub \<noteq> [] \<and> sub \<noteq> ''jpeg'' \<longrightarrow>
        download_extension (''data:'' @ ty @ ''/'' @ sub @ '';'' @ rest) = sub)
   \<and> (m \<noteq> [] \<and> CHR '';'' \<notin> set m \<and> CHR ''/'' \<notin> set m \<longrightarrow>
        download_extension (''data:'' @ m @ '';'' @ rest) = ''png'')
   \<and> (CHR '';'' \<notin> set d \<longrightarrow> download_extension (''data:;base64,'' @ d) = ''png'')
   \<and> (CHR '';'' \<notin> set u \<longrightarrow> download_extension u = ''png'')"
proof -
  have a: "download_extension (''data:image/jpeg;'' @ rest) = ''jpg''"
    using ext_of_mime [of "''image''" "''jpeg''" rest] by simp
  have b: "download_extension (''data:image/png;'' @ rest) = ''png''"
    using ext_of_mime [of "''image''" "''png''" rest] by simp
  show ?thesis
    using a b ext_of_mime [of ty sub rest] ext_no_subtype [of m rest]
      ext_no_match [OF match_greedy_missing [of d]] ext_no_match [OF match_greedy_no_semicolon [of u]]
    by simp
qed

theorem download_extension_follows_mime_witness:
  "download_extension ''data:image/jpeg;base64,AAAA'' = ''jpg''
   \<and> download_extension ''data:image/png;base64,AAAA'' = ''png''
   \<and> download_extension ''data:image/webp;base64,AAAA'' = ''webp''
   \<and> download_extension ''data:image;base64,AAAA'' = ''png''
   \<and> download_extension ''data:;base64,AAAA'' = ''png''
   \<and> download_extension ''data:,'' = ''png''"
  using download_extension_follows_mime [of "''base64,AAAA''" "''image''" "''webp''" "''image''" "''AAAA''" "''data:,''"]
  by simp



section \<open>Edit request client: properties\<close>

lemma wrapped_is_not_configuration_error:
  "wrap_remote_failure err \<noteq> Error ''API key is not configured. Please set the API_KEY environment variable.''"
  by (cases err) (simp_all add: wrap_remote_failure_def)

lemma with_key_no_configuration_error:
  assumes "truthy (API_KEY w)"
  shows "fst (editImageWithGemini w part p) \<noteq>
           Inl (Error ''API key is not configured. Please set the API_KEY environment variable.'')"
proof -
  obtain k where k: "API_KEY w = Some k" "k \<noteq> []"
    using assms by (auto simp: truthy_def split: option.splits)
  show ?thesis
    using k wrapped_is_not_configuration_error
    by (auto simp: editImageWithGemini_def Let_def split: sum.splits)
qed


text \<open>
  C2. When the credential is absent (or empty), \<open>editImageWithGemini\<close> throws the
  configuration error and has constructed no client and made no network call. That error
  is not a wrapped remote failure: with a credential present, no outcome of the function
  is the configuration error.
\<close>

theorem missing_credential_is_configuration_error:
  "\<not> truthy (API_KEY w) \<Longrightarrow>
     editImageWithGemini w part p =
       (Inl (Error ''API key is not configured. Please set the API_KEY environment variable.''), [])
     \<and> (\<forall>w' part' p'. truthy (API_KEY w') \<longrightarrow>
           fst (editImageWithGemini w' part' p') \<noteq>
             Inl (Error ''API key is not configured. Please set the API_KEY environment variable.''))"
  using with_key_no_configuration_error
  by (auto simp: editImageWithGemini_def truthy_def split: option.splits)

theorem missing_credential_is_configuration_error_witness:
  "\<not> truthy (API_KEY (demo_world\<lparr>API_KEY := None\<rparr>))
   \<and> editImageWithGemini (demo_world\<lparr>API_KEY := None\<rparr>) \<lparr>data = ''AAAA'', mimeType = ''image/png''\<rparr> ''test'' =
       (Inl (Error ''API key is not configured. Please set the API_KEY environment variable.''), [])
   \<and> fst (editImageWithGemini (demo_world\<lparr>generateContent := (\<lambda>r. Inl (Error ''quota''))\<rparr>)
           \<lparr>data = ''AAAA'', mimeType = ''image/png''\<rparr> ''test'') = Inl (Error ''Gemini API Error: quota'')"
  using missing_credential_is_configuration_error
    [of "demo_world\<lparr>API_KEY := None\<rparr>" "\<lparr>data = ''AAAA'', mimeType = ''image/png''\<rparr>" "''test''"]
  by (simp add: truthy_def demo_world_def editImageWithGemini_def wrap_remote_failure_def Let_def)


section \<open>Canvas transform utilities: properties\<close>

text \<open>
  C4, as stated, asks both canvas operations to reject on a zero or otherwise degenerate
  size. \<open>resizeImage\<close> does not look at the size: asked for 0 by 0 pixels, in a browser
  that decodes the image and hands out a context, it resolves with the encoding of an
  empty canvas.
\<close>

theorem resize_to_zero_resolves_counterexample:
  "resizeImage demo_world ''data:image/png;base64,AAAA'' (Fin 0) (Fin 0) = Inr ''data:,''"
  by (simp add: resizeImage_def demo_world_def Let_def)


text \<open>
  C4, amended. Both canvas operations reject with an explicit error exactly when the image
  fails to load or the canvas has no 2D context; neither checks a dimension, so with a
  decoded image and a context they resolve with whatever the canvas encodes.
\<close>

theorem canvas_transforms_reject_only_without_image_or_context:
  "((\<exists>err. resizeImage w u nw nh = Inl err) = (loadImage w u = None \<or> \<not> getContext2d w nw nh))
   \<and> (loadImage w u = None \<longrightarrow> resizeImage w u nw nh = Inl (Error ''Failed to load image for resizing.''))
   \<and> (loadImage w u \<noteq> None \<and> \<not> getContext2d w nw nh \<longrightarrow>
        resizeImage w u nw nh = Inl (Error ''Could not get canvas context''))
   \<and> (loadImage w u = None \<longrightarrow>
        applyCanvasFilter w u flt = Inl (Error ''Failed to load image for applying filter.''))
   \<and> (\<forall>img. loadImage w u = Some img \<longrightarrow>
        ((\<exists>err. applyCanvasFilter w u flt = Inl err) =
           (\<not> getContext2d w (Fin (of_nat (img_width img))) (Fin (of_nat (img_height img)))))
        \<and> (\<not> getContext2d w (Fin (of_nat (img_width img))) (Fin (of_nat (img_height img))) \<longrightarrow>
             applyCanvasFilter w u flt = Inl (Error ''Could not get canvas context'')))"
  by (auto simp: resizeImage_def applyCanvasFilter_def Let_def split: option.splits)

theorem canvas_transforms_reject_only_without_image_or_context_witness:
  "resizeImage (demo_world\<lparr>loadImage := (\<lambda>u. None)\<rparr>) ''x'' (Fin 2) (Fin 2)
     = Inl (Error ''Failed to load image for resizing.'')
   \<and> resizeImage (demo_world\<lparr>getContext2d := (\<lambda>cw ch. False)\<rparr>) ''x'' (Fin 2) (Fin 2)
     = Inl (Error ''Could not get canvas context'')
   \<and> applyCanvasFilter (demo_world\<lparr>loadImage := (\<lambda>u. None)\<rparr>) ''x'' ''contrast(150%)''
     = Inl (Error ''Failed to load image for applying filter.'')
   \<and> applyCanvasFilter demo_world ''x'' ''contrast(150%)'' = Inr ''data:image/png;base64,AAAA''"
  using canvas_transforms_reject_only_without_image_or_context
    [of "demo_world\<lparr>loadImage := (\<lambda>u. None)\<rparr>" "''x''" "Fin 2" "Fin 2" "''contrast(150%)''"]
    canvas_transforms_reject_only_without_image_or_context
    [of "demo_world\<lparr>getContext2d := (\<lambda>cw ch. False)\<rparr>" "''x''" "Fin 2" "Fin 2" "''contrast(150%)''"]
  by (simp add: demo_world_def applyCanvasFilter_def Let_def)

lemma jpeg_prefix: "startsWith ''data:image/jpeg'' u = (take 15 u = ''data:image/jpeg'')"
  by (simp add: startsWith_take eval_nat_numeral)


text \<open>
  C8. For a decoded source image and any target size, whenever \<open>resizeImage\<close> resolves the
  result is the canvas of that size encoded as \<^verbatim>\<open>image/jpeg\<close> if the source URL begins with
  \<^verbatim>\<open>data:image/jpeg\<close> and as \<^verbatim>\<open>image/png\<close> otherwise; it only fails to resolve when the
  canvas has no 2D context.
\<close>

theorem resizeImage_keeps_jpeg_else_png:
  "loadImage w u = Some img \<Longrightarrow>
     (case resizeImage w u nw nh of
        Inr encoded \<Rightarrow>
          encoded = toDataURL w \<lparr>cv_width = nw, cv_height = nh, cv_filter = None,
                                  cv_drawn = Some (DrawScaled img nw nh)\<rparr>
                      (if take 15 u = ''data:image/jpeg'' then ''image/jpeg'' else ''image/png'')
      | Inl err \<Rightarrow> \<not> getContext2d w nw nh \<and> err = Error ''Could not get canvas context'')"
  by (simp add: resizeImage_def jpeg_prefix Let_def)

theorem resizeImage_keeps_jpeg_else_png_witness:
  "loadImage demo_world ''data:image/jpeg;base64,AAAA'' = Some \<lparr>src = ''data:image/jpeg;base64,AAAA'', img_width = 4, img_height = 3\<rparr>
   \<and> resizeImage demo_world ''data:image/jpeg;base64,AAAA'' (Fin 2) (Fin 2) = Inr ''data:image/jpeg;base64,AAAA''
   \<and> resizeImage demo_world ''data:image/webp;base64,AAAA'' (Fin 2) (Fin 2) = Inr ''data:image/png;base64,AAAA''"
  using resizeImage_keeps_jpeg_else_png
    [of demo_world "''data:image/jpeg;base64,AAAA''"
        "\<lparr>src = ''data:image/jpeg;base64,AAAA'', img_width = 4, img_height = 3\<rparr>" "Fin 2" "Fin 2"]
  by (simp add: demo_world_def resizeImage_def Let_def)


section \<open>Adjustments: properties\<close>

text \<open>
  C7. At contrast 100 the adjustment effect makes no canvas call, and the final image it
  stores is exactly the edited image; nothing else in the state changes.
\<close>

theorem contrast_100_is_pass_through:
  "contrast s = 100 \<Longrightarrow>
     snd (applyAdjustments w superseded s) = []
     \<and> (truthy (editedImage s) \<longrightarrow>
          fst (applyAdjustments w superseded s) = s\<lparr>finalImage := editedImage s\<rparr>)
     \<and> (editedImage s = None \<longrightarrow>
          fst (applyAdjustments w superseded s) = s\<lparr>finalImage := None\<rparr>)"
  by (auto simp: applyAdjustments_def truthy_def split: option.splits)

theorem contrast_100_is_pass_through_witness:
  "contrast (initial_state\<lparr>editedImage := Some ''data:image/png;base64,QUJD''\<rparr>) = 100
   \<and> applyAdjustments demo_world False (initial_state\<lparr>editedImage := Some ''data:image/png;base64,QUJD''\<rparr>)
       = (initial_state\<lparr>editedImage := Some ''data:image/png;base64,QUJD'',
                        finalImage := Some ''data:image/png;base64,QUJD''\<rparr>, [])"
  using contrast_100_is_pass_through
    [of "initial_state\<lparr>editedImage := Some ''data:image/png;base64,QUJD''\<rparr>" demo_world False]
  by (simp add: initial_state_def truthy_def prod_eq_iff)



section \<open>Properties of the number model\<close>

text \<open>
  Rounding to a double moves a value of ordinary size by at most one part in \<open>2\<^sup>5\<^sup>3\<close>.
  So the double product of a whole number with the double quotient of two whole numbers
  stays within \<open>1 / (2 a)\<close> of the exact value \<open>n b / a\<close>, and \<^verbatim>\<open>Math.round\<close> of it can
  differ from the exact rounding only when \<open>n b / a\<close> lies exactly halfway between two
  integers.
\<close>

lemma pow2_powi: "pow2 e = 2 powi e"
proof (cases "0 \<le> e")
  case True
  then show ?thesis by (simp add: pow2_def power_int_def)
next
  case False
  have "inverse (2::rat) ^ nat (- e) = 1 / 2 ^ nat (- e)"
    by (simp only: inverse_eq_divide power_one_over)
  with False show ?thesis by (simp only: pow2_def power_int_def if_False)
qed

lemma pow2_pos: "0 < pow2 e"
  by (simp add: pow2_def)

lemma pow2_shift: "pow2 (e - 52) = pow2 e / 2 ^ 52"
  unfolding pow2_powi by (simp add: power_int_diff del: power_numeral)

lemma pow2_mono: "a \<le> b \<Longrightarrow> pow2 a \<le> pow2 b"
  unfolding pow2_powi by (rule power_int_increasing) simp_all

lemma round_ties_even_error: "\<bar>of_int (round_ties_even t) - t\<bar> \<le> 1 / 2"
proof -
  have "of_int \<lfloor>t\<rfloor> \<le> t" "t < of_int \<lfloor>t\<rfloor> + 1" by linarith+
  then show ?thesis
    by (auto simp: round_ties_even_def Let_def)
qed

lemma binade_lower:
  assumes "x \<noteq> 0"
  shows "pow2 (binade x) \<le> \<bar>x\<bar>"
proof (cases "1 \<le> \<bar>x\<bar>")
  case True
  define n where "n = \<lfloor>\<bar>x\<bar>\<rfloor>"
  have n: "0 < n" using True by (simp add: n_def)
  have b: "2 ^ nat (bitlen n - 1) \<le> n" using bitlen_bounds [OF n] by simp
  have "0 \<le> bitlen n - 1" using n by (simp add: bitlen_alt_def)
  then have "pow2 (bitlen n - 1) = of_int (2 ^ nat (bitlen n - 1))"
    by (simp add: pow2_def)
  also have "\<dots> \<le> of_int n" using b by (simp only: of_int_le_iff)
  also have "\<dots> \<le> \<bar>x\<bar>" by (simp add: n_def)
  finally show ?thesis using True by (simp add: binade_def n_def)
next
  case False
  define m where "m = \<lceil>1 / \<bar>x\<bar>\<rceil> - 1"
  have x: "0 < \<bar>x\<bar>" "\<bar>x\<bar> < 1" using assms False by simp_all
  then have "1 < 1 / \<bar>x\<bar>" by simp
  then have "1 < \<lceil>1 / \<bar>x\<bar>\<rceil>" by linarith
  then have m: "0 < m" by (simp add: m_def)
  have bl: "0 < bitlen m" using m by (simp add: bitlen_alt_def)
  have "m < 2 ^ nat (bitlen m)" using bitlen_bounds [OF m] by simp
  then have "m + 1 \<le> 2 ^ nat (bitlen m)" by simp
  then have "(of_int (m + 1) :: rat) \<le> of_int (2 ^ nat (bitlen m))" by (simp only: of_int_le_iff)
  moreover have "1 / \<bar>x\<bar> \<le> of_int (m + 1)" by (simp add: m_def)
  ultimately have "1 / \<bar>x\<bar> \<le> 2 ^ nat (bitlen m)" by simp
  then have "1 / 2 ^ nat (bitlen m) \<le> \<bar>x\<bar>"
    using x by (simp add: field_simps)
  moreover have "pow2 (- bitlen m) = 1 / 2 ^ nat (bitlen m)"
    using bl by (simp add: pow2_def)
  ultimately show ?thesis using False by (simp add: binade_def m_def)
qed

lemma fl64_error:
  assumes lo: "1 / 2 ^ 60 \<le> \<bar>x\<bar>" and hi: "\<bar>x\<bar> \<le> 2 ^ 60"
  shows "\<exists>y. fl64 x = Fin y \<and> \<bar>y - x\<bar> \<le> \<bar>x\<bar> / 2 ^ 53"
proof -
  have x0: "x \<noteq> 0" using lo by auto
  define e where "e = max (binade x) (- 1022)"
  define ulp where "ulp = pow2 (e - 52)"
  define y where "y = of_int (round_ties_even (x / ulp)) * ulp"
  have "pow2 (- 1022) \<le> pow2 (- 60)" by (rule pow2_mono) simp
  also have "pow2 (- 60) = 1 / 2 ^ 60" by (simp add: pow2_def del: power_numeral)
  finally have "pow2 (- 1022) \<le> \<bar>x\<bar>" using lo by simp
  then have pe: "pow2 e \<le> \<bar>x\<bar>"
    using binade_lower [OF x0] by (simp add: e_def max_def)
  have up: "0 < ulp" by (simp add: ulp_def pow2_pos)
  have ule: "ulp \<le> \<bar>x\<bar> / 2 ^ 52"
    using pe by (simp add: ulp_def pow2_shift divide_right_mono del: power_numeral)
  have "y - x = (of_int (round_ties_even (x / ulp)) - x / ulp) * ulp"
    using up by (simp add: y_def field_simps)
  then have "\<bar>y - x\<bar> = \<bar>of_int (round_ties_even (x / ulp)) - x / ulp\<bar> * ulp"
    using up by (simp add: abs_mult)
  also have "\<dots> \<le> 1 / 2 * ulp"
    using round_ties_even_error [of "x / ulp"] up by (simp add: mult_right_mono del: power_numeral)
  also have "\<dots> \<le> 1 / 2 * (\<bar>x\<bar> / 2 ^ 52)" using ule by simp
  also have "\<dots> = \<bar>x\<bar> / 2 ^ 53" by simp
  finally have err: "\<bar>y - x\<bar> \<le> \<bar>x\<bar> / 2 ^ 53" .
  have "\<bar>x\<bar> / 2 ^ 53 \<le> \<bar>x\<bar>" by (simp add: field_simps)
  with err have "\<bar>y\<bar> \<le> 2 * \<bar>x\<bar>" by linarith
  also have "\<dots> \<le> 2 * 2 ^ 60" using hi by simp
  also have "\<dots> = pow2 61" by (simp add: pow2_def)
  also have "\<dots> < pow2 1024"
    unfolding pow2_powi by (rule power_int_strict_increasing) simp_all
  finally have "\<not> pow2 1024 \<le> \<bar>y\<bar>" by simp
  then have "fl64 x = Fin y"
    using x0 unfolding fl64_def Let_def e_def [symmetric] ulp_def [symmetric] y_def [symmetric]
    by simp
  with err show ?thesis by blast
qed

lemma fl64_zero: "fl64 0 = Fin 0"
  by (simp add: fl64_def)

lemma double_product_close:
  fixes A B N :: nat
  assumes A: "0 < A" "A < 2 ^ 50" and B: "B < 2 ^ 50" and NB: "N * B < 2 ^ 50"
  shows "\<exists>p. js_mul (Fin (of_nat N)) (js_div (Fin (of_nat B)) (Fin (of_nat A))) = Fin p
            \<and> \<bar>p - of_nat N * of_nat B / of_nat A\<bar> * (2 * of_nat A) < 1"
proof (cases "B = 0")
  case True
  then show ?thesis using A by (simp add: js_div_def js_mul_def fl64_zero)
next
  case False
  define a b n :: rat where "a = of_nat A" and "b = of_nat B" and "n = of_nat N"
  have a: "1 \<le> a" "a < 2 ^ 50" using A by (simp_all add: a_def of_nat_less_numeral_power_cancel_iff)
  have b: "1 \<le> b" "b < 2 ^ 50" using False B by (simp_all add: b_def of_nat_less_numeral_power_cancel_iff)
  have n0: "0 \<le> n" by (simp add: n_def)
  have "of_nat (N * B) < (2::rat) ^ 50"
    using NB by (simp only: of_nat_less_numeral_power_cancel_iff)
  then have nb: "n * b < 2 ^ 50" by (simp add: n_def b_def)
  define q0 where "q0 = b / a"
  have q0: "0 < q0" using a b by (simp add: q0_def)
  have "1 / 2 ^ 50 < 1 / a" using a by (simp add: field_simps)
  also have "\<dots> \<le> q0" using a b by (simp add: q0_def divide_right_mono)
  finally have q0_lo: "1 / 2 ^ 50 < q0" .
  have "q0 \<le> b" using a b by (simp add: q0_def field_simps)
  with b have q0_hi: "q0 < 2 ^ 50" by simp
  have "\<exists>y. fl64 q0 = Fin y \<and> \<bar>y - q0\<bar> \<le> \<bar>q0\<bar> / 2 ^ 53"
    using q0 q0_lo q0_hi by (intro fl64_error) simp_all
  then obtain q where q: "fl64 q0 = Fin q" and qe: "\<bar>q - q0\<bar> \<le> q0 / 2 ^ 53"
    using q0 by auto
  have dv: "js_div (Fin b) (Fin a) = Fin q"
    using a q by (simp add: js_div_def q0_def)
  show ?thesis
  proof (cases "N = 0")
    case True
    then show ?thesis
      using dv by (simp add: js_mul_def fl64_zero a_def b_def)
  next
    case False
    then have n: "1 \<le> n" by (simp add: n_def)
    define x where "x = n * b / a"
    have xq: "x = n * q0" by (simp add: x_def q0_def)
    have "q0 / 2 ^ 53 \<le> q0 / 2" using q0 by simp
    with qe have "\<bar>q - q0\<bar> \<le> q0 / 2" by linarith
    then have q_lo: "q0 / 2 \<le> q" and q_hi: "q \<le> 2 * q0"
      using q0 by linarith+
    have nq_lo: "1 / 2 ^ 60 \<le> n * q"
    proof -
      have "1 / 2 ^ 60 \<le> (1 / 2 ^ 50) / (2::rat)" by simp
      also have "\<dots> \<le> q0 / 2" using q0_lo by simp
      also have "\<dots> \<le> q" by (rule q_lo)
      also have "\<dots> \<le> n * q" using n q_lo q0 by (simp add: mult_le_cancel_right1)
      finally show ?thesis .
    qed
    have "0 \<le> n * b" using n0 b by simp
    then have "n * b / a \<le> n * b / 1" using a by (intro divide_left_mono) simp_all
    then have "x \<le> n * b" by (simp add: x_def)
    with nb have x_hi: "x < 2 ^ 50" by simp
    have "n * q \<le> n * (2 * q0)" using q_hi n0 by (rule mult_left_mono)
    then have nq_hi: "n * q \<le> 2 * x" by (simp add: xq)
    then have "n * q \<le> 2 ^ 60" using x_hi by simp
    moreover have "0 < n * q" using nq_lo by (simp add: less_le_trans [of 0 "1 / 2 ^ 60"])
    ultimately have "\<exists>y. fl64 (n * q) = Fin y \<and> \<bar>y - n * q\<bar> \<le> \<bar>n * q\<bar> / 2 ^ 53"
      using nq_lo by (intro fl64_error) simp_all
    then obtain p where p: "fl64 (n * q) = Fin p" and pe: "\<bar>p - n * q\<bar> \<le> n * q / 2 ^ 53"
      using \<open>0 < n * q\<close> by auto
    have ml: "js_mul (Fin n) (js_div (Fin b) (Fin a)) = Fin p"
      using dv p by (simp add: js_mul_def)
    have "\<bar>n * q - x\<bar> = n * \<bar>q - q0\<bar>" using n0 by (simp add: xq abs_mult right_diff_distrib [symmetric])
    also have "\<dots> \<le> n * (q0 / 2 ^ 53)" using qe n0 by (rule mult_left_mono)
    also have "\<dots> = x / 2 ^ 53" by (simp add: xq)
    finally have e1: "\<bar>n * q - x\<bar> \<le> x / 2 ^ 53" .
    have e2: "\<bar>p - n * q\<bar> \<le> 2 * x / 2 ^ 53"
      using pe nq_hi by (simp add: field_simps)
    have "\<bar>p - x\<bar> \<le> \<bar>p - n * q\<bar> + \<bar>n * q - x\<bar>" by simp
    with e1 e2 have e: "\<bar>p - x\<bar> \<le> 3 * x / 2 ^ 53" by (simp add: field_simps)
    have "\<bar>p - x\<bar> * (2 * a) \<le> 3 * x / 2 ^ 53 * (2 * a)"
      using e a by (simp add: mult_right_mono)
    also have "\<dots> = 6 * (n * b) / 2 ^ 53" using a by (simp add: x_def)
    also have "\<dots> < 6 * 2 ^ 50 / 2 ^ 53" using nb by (simp add: mult.commute)
    also have "\<dots> < 1" by simp
    finally show ?thesis using ml by (auto simp: x_def a_def b_def n_def)
  qed
qed

lemma round_of_close:
  fixes A :: nat and M :: int and p :: rat
  assumes A: "0 < A" and close: "\<bar>p - of_int M / of_nat A\<bar> * (2 * of_nat A) < 1"
  shows "(of_int (round (of_int M / of_nat A :: rat)) \<noteq> of_int M / of_nat A + (1 / 2 :: rat)
            \<longrightarrow> \<lfloor>p + 1 / 2\<rfloor> = round (of_int M / of_nat A :: rat))
         \<and> (\<lfloor>p + 1 / 2\<rfloor> = round (of_int M / of_nat A :: rat)
              \<or> \<lfloor>p + 1 / 2\<rfloor> = round (of_int M / of_nat A :: rat) - 1)"
proof -
  define d :: rat where "d = 2 * of_nat A"
  define x :: rat where "x = of_int M / of_nat A"
  define k where "k = round x"
  define j where "j = 2 * M + int A - 2 * int A * k"
  define t where "t = p + 1 / 2 - of_int k"
  define v where "v = (p - x) * d"
  have d: "0 < d" using A by (simp add: d_def)
  have k: "0 \<le> x + 1 / 2 - of_int k" "x + 1 / 2 - of_int k < 1"
    unfolding k_def round_def by linarith+
  have j: "of_int j = (x + 1 / 2 - of_int k) * d"
    using A by (simp add: j_def x_def d_def field_simps)
  have "0 \<le> (x + 1 / 2 - of_int k) * d"
    using k(1) d by (intro mult_nonneg_nonneg) simp_all
  then have "(0::rat) \<le> of_int j" by (simp only: j)
  then have j0: "0 \<le> j" by simp
  have "(x + 1 / 2 - of_int k) * d < 1 * d"
    using k(2) d by (intro mult_strict_right_mono)
  then have "(of_int j :: rat) < of_int (2 * int A)" by (simp add: j d_def)
  then have "j < 2 * int A" by (simp only: of_int_less_iff)
  then have "j \<le> 2 * int A - 1" by simp
  then have "(of_int j :: rat) \<le> of_int (2 * int A - 1)" by (simp only: of_int_le_iff)
  then have j1: "of_int j \<le> d - 1" by (simp add: d_def)
  have "\<bar>v\<bar> = \<bar>p - x\<bar> * d" using d by (simp add: v_def abs_mult)
  then have "\<bar>v\<bar> < 1" using close by (simp add: x_def d_def)
  then have v: "- 1 < v" "v < 1" by (simp_all add: abs_less_iff)
  have td: "t * d = of_int j + v"
    by (simp add: t_def v_def j algebra_simps)
  have tie: "(of_int k = x + 1 / 2) = (j = 0)"
  proof
    assume "of_int k = x + 1 / 2"
    then have "(of_int j :: rat) = 0" by (simp add: j)
    then show "j = 0" by simp
  next
    assume "j = 0"
    then have "(x + 1 / 2 - of_int k) * d = 0" using j by simp
    then show "of_int k = x + 1 / 2" using d by simp
  qed
  have "t * d < 1 * d" using td j1 v by simp
  then have hi: "t < 1" using d by (simp only: mult_less_cancel_right_pos)
  have "- 1 * d < t * d"
  proof -
    have "1 \<le> A" using A by simp
    then have "(of_nat 1 :: rat) \<le> of_nat A" by (simp only: of_nat_le_iff)
    then have "1 \<le> d" by (simp add: d_def)
    then show ?thesis using td v \<open>(0::rat) \<le> of_int j\<close> by simp
  qed
  then have lo: "- 1 < t" using d by (simp only: mult_less_cancel_right_pos)
  have weak: "\<lfloor>p + 1 / 2\<rfloor> = k \<or> \<lfloor>p + 1 / 2\<rfloor> = k - 1"
  proof (cases "0 \<le> t")
    case True
    with hi have "\<lfloor>p + 1 / 2\<rfloor> = k" by (simp add: floor_eq_iff t_def) 
    then show ?thesis by simp
  next
    case False
    with lo have "\<lfloor>p + 1 / 2\<rfloor> = k - 1" by (simp add: floor_eq_iff t_def)
    then show ?thesis by simp
  qed
  have strong: "\<lfloor>p + 1 / 2\<rfloor> = k" if "j \<noteq> 0"
  proof -
    from that j0 have "1 \<le> j" by simp
    then have "(1::rat) \<le> of_int j" by simp
    then have "0 * d < t * d" using td v by simp
    then have "0 < t" using d by (simp only: mult_less_cancel_right_pos)
    with hi show ?thesis by (simp add: floor_eq_iff t_def)
  qed
  show ?thesis
    using weak strong tie unfolding k_def x_def by blast
qed


section \<open>Resizing: properties\<close>

text \<open>
  C10. When a resize is needed but the computed target width or height is not above zero
  (which includes \<^verbatim>\<open>NaN\<close>), \<open>processAndSetImage\<close> stores the image as it came, throws
  nothing, and makes no call to \<open>resizeImage\<close>.
\<close>

theorem nonpositive_target_skips_resize:
  "originalDimensions cl = Some od \<Longrightarrow> isResizingNeeded cl \<Longrightarrow>
   \<not> (js_gt (fst (targetSize cl od)) (Fin 0) \<and> js_gt (snd (targetSize cl od)) (Fin 0)) \<Longrightarrow>
     processAndSetImage w cl imageUrl s = (Inr (s\<lparr>editedImage := Some imageUrl\<rparr>), [])"
  by (auto simp: processAndSetImage_def Let_def split: prod.splits)

lemma zws_dims: "originalDimensions zero_width_state = Some \<lparr>dim_width = Fin 400, dim_height = Fin 300\<rparr>"
  by (simp add: zero_width_state_def image_loaded_def)

lemma zws_needed: "isResizingNeeded zero_width_state"
  by (simp add: isResizingNeeded_def zero_width_state_def image_loaded_def sourceWidth_def
      sourceHeight_def initial_state_def strict_neq_def)

lemma zws_target: "targetSize zero_width_state \<lparr>dim_width = Fin 400, dim_height = Fin 300\<rparr> = (Fin 0, Fin 300)"
  by (simp add: targetSize_def zero_width_state_def)

theorem nonpositive_target_skips_resize_witness:
  "originalDimensions zero_width_state = Some \<lparr>dim_width = Fin 400, dim_height = Fin 300\<rparr>
   \<and> isResizingNeeded zero_width_state
   \<and> targetSize zero_width_state \<lparr>dim_width = Fin 400, dim_height = Fin 300\<rparr> = (Fin 0, Fin 300)
   \<and> processAndSetImage demo_world zero_width_state ''data:image/png;base64,QUJD'' (generate_begin zero_width_state)
       = (Inr ((generate_begin zero_width_state)\<lparr>editedImage := Some ''data:image/png;base64,QUJD''\<rparr>), [])"
  using nonpositive_target_skips_resize
    [of zero_width_state "\<lparr>dim_width = Fin 400, dim_height = Fin 300\<rparr>" demo_world
        "''data:image/png;base64,QUJD''" "generate_begin zero_width_state"]
    zws_dims zws_needed zws_target
  by (simp add: js_gt_def)


text \<open>
  C6, as stated, equates the locked height with \<open>round (w * h / w\<^sub>0)\<close>. The handler
  multiplies the new width by the quotient \<open>h / w\<^sub>0\<close>, and both operations round to a
  double: for a 6 by 13 source and the width 57 the quotient is just below \<open>13/6\<close>, the
  product just below \<open>123.5\<close>, and the height is 123, not 124.
\<close>

lemma quotient_13_6: "js_div (Fin 13) (Fin 6) = Fin (4878899596318037 / 2251799813685248)"
  by code_simp

lemma product_57: "js_mul (Fin 57) (Fin (4878899596318037 / 2251799813685248)) = Fin (8690539905941503 / 70368744177664)"
  by code_simp

lemma round_57: "Math_round (Fin (8690539905941503 / 70368744177664)) = Fin 123"
  by code_simp

theorem locked_height_rounds_down_counterexample:
  "sourceDims six_by_thirteen = Some (Fin 6, Fin 13)
   \<and> isAspectRatioLocked (resizeOptions six_by_thirteen)
   \<and> ro_height (resizeOptions (handleWidthChange (Fin 57) six_by_thirteen)) = Fin 123
   \<and> round ((57::rat) * 13 / 6) = 124"
proof -
  have sd: "sourceDims six_by_thirteen = Some (Fin 6, Fin 13)"
    by (simp add: six_by_thirteen_def image_loaded_def sourceDims_def initial_state_def)
  have lock: "isAspectRatioLocked (resizeOptions six_by_thirteen)"
    by (simp add: six_by_thirteen_def image_loaded_def initial_state_def)
  have "ro_height (resizeOptions (handleWidthChange (Fin 57) six_by_thirteen))
          = Math_round (js_mul (Fin 57) (js_div (Fin 13) (Fin 6)))"
    by (simp add: handleWidthChange_def sd lock or_zero_def Let_def)
  then have h: "ro_height (resizeOptions (handleWidthChange (Fin 57) six_by_thirteen)) = Fin 123"
    by (simp add: quotient_13_6 product_57 round_57)
  have e: "round ((57::rat) * 13 / 6) = 124"
    by code_simp
  show ?thesis using sd lock h e by simp
qed

lemma locked_height_of_original:
  assumes "originalDimensions s = Some \<lparr>dim_width = Fin ow, dim_height = Fin oh\<rparr>"
    "\<forall>c. completedCrop s = Some c \<longrightarrow> crop_width c = Fin ow \<and> crop_height c = Fin oh"
    "isAspectRatioLocked (resizeOptions s)"
  shows "ro_width (resizeOptions (handleWidthChange (Fin x) s)) = Fin x
         \<and> ro_height (resizeOptions (handleWidthChange (Fin x) s))
             = Math_round (js_mul (Fin x) (js_div (Fin oh) (Fin ow)))"
proof -
  have "sourceDims s = Some (Fin ow, Fin oh)"
    using assms(1,2) by (cases "completedCrop s") (simp_all add: sourceDims_def)
  then show ?thesis
    using assms(3) by (simp add: handleWidthChange_def or_zero_def Let_def)
qed

lemma rounded_double_product:
  assumes "ow \<in> \<nat>" "oh \<in> \<nat>" "x \<in> \<nat>" "0 < ow" "ow < 2 ^ 50" "oh < 2 ^ 50" "x * oh < 2 ^ 50"
  shows "\<exists>h. Math_round (js_mul (Fin x) (js_div (Fin oh) (Fin ow))) = Fin (of_int h)
           \<and> (of_int (round (x * oh / ow)) \<noteq> x * oh / ow + 1 / 2 \<longrightarrow> h = round (x * oh / ow))
           \<and> (h = round (x * oh / ow) \<or> h = round (x * oh / ow) - 1)"
proof -
  obtain A B N :: nat where abn: "ow = of_nat A" "oh = of_nat B" "x = of_nat N"
    using assms(1-3) by (auto elim!: Nats_cases)
  have A: "0 < A" "A < 2 ^ 50" using assms(4,5) abn by simp_all
  have B: "B < 2 ^ 50" using assms(6) abn by simp
  have "(of_nat (N * B) :: rat) < 2 ^ 50" using assms(7) abn by simp
  then have NB: "N * B < 2 ^ 50" by (simp only: of_nat_less_numeral_power_cancel_iff)
  obtain p where p: "js_mul (Fin (of_nat N)) (js_div (Fin (of_nat B)) (Fin (of_nat A))) = Fin p"
    and close: "\<bar>p - of_nat N * of_nat B / of_nat A\<bar> * (2 * of_nat A) < 1"
    using double_product_close [OF A B NB] by blast
  have m: "(of_int (int (N * B)) :: rat) / of_nat A = x * oh / ow" by (simp add: abn)
  have "\<bar>p - of_int (int (N * B)) / of_nat A\<bar> * (2 * of_nat A) < 1"
    using close by simp
  from round_of_close [OF A(1) this]
  have "(of_int (round (x * oh / ow)) \<noteq> x * oh / ow + 1 / 2 \<longrightarrow> \<lfloor>p + 1 / 2\<rfloor> = round (x * oh / ow))
        \<and> (\<lfloor>p + 1 / 2\<rfloor> = round (x * oh / ow) \<or> \<lfloor>p + 1 / 2\<rfloor> = round (x * oh / ow) - 1)"
    unfolding m .
  moreover have "Math_round (js_mul (Fin x) (js_div (Fin oh) (Fin ow))) = Fin (of_int \<lfloor>p + 1 / 2\<rfloor>)"
    using p by (simp add: abn Math_round_def)
  ultimately show ?thesis by blast
qed


text \<open>
  C6, amended. In a state whose completed crop, if any, is the applied one (it has the
  original dimensions), with the original width above zero and the aspect ratio locked,
  entering a new width \<open>w\<close> sets the height to \<^verbatim>\<open>Math.round\<close> of the double product of \<open>w\<close>
  and the double quotient of the original height by the original width. For whole-number
  dimensions and width, with the dimensions and \<open>w * originalHeight\<close> below \<open>2\<^sup>5\<^sup>0\<close>, that is
  \<open>round (w * originalHeight / originalWidth)\<close> unless the exact value lies halfway
  between two integers, where it is that or one less.
\<close>

theorem locked_width_change_height:
  "originalDimensions s = Some \<lparr>dim_width = Fin ow, dim_height = Fin oh\<rparr> \<Longrightarrow>
   (\<forall>c. completedCrop s = Some c \<longrightarrow> crop_width c = Fin ow \<and> crop_height c = Fin oh) \<Longrightarrow>
   0 < ow \<Longrightarrow> isAspectRatioLocked (resizeOptions s) \<Longrightarrow>
     ro_width (resizeOptions (handleWidthChange (Fin x) s)) = Fin x
     \<and> ro_height (resizeOptions (handleWidthChange (Fin x) s))
         = Math_round (js_mul (Fin x) (js_div (Fin oh) (Fin ow)))
     \<and> (ow \<in> \<nat> \<and> oh \<in> \<nat> \<and> x \<in> \<nat> \<and> ow < 2 ^ 50 \<and> oh < 2 ^ 50 \<and> x * oh < 2 ^ 50 \<longrightarrow>
          (of_int (round (x * oh / ow)) \<noteq> x * oh / ow + 1 / 2 \<longrightarrow>
             ro_height (resizeOptions (handleWidthChange (Fin x) s)) = Fin (of_int (round (x * oh / ow))))
          \<and> (ro_height (resizeOptions (handleWidthChange (Fin x) s)) = Fin (of_int (round (x * oh / ow)))
               \<or> ro_height (resizeOptions (handleWidthChange (Fin x) s))
                    = Fin (of_int (round (x * oh / ow) - 1))))"
  using locked_height_of_original [of s ow oh x] rounded_double_product [of ow oh x]
  by (auto simp del: of_int_diff)

theorem locked_width_change_height_witness:
  "originalDimensions (image_loaded 600 400 initial_state) = Some \<lparr>dim_width = Fin 600, dim_height = Fin 400\<rparr>
   \<and> completedCrop (image_loaded 600 400 initial_state) = None
   \<and> isAspectRatioLocked (resizeOptions (image_loaded 600 400 initial_state))
   \<and> ro_width (resizeOptions (handleWidthChange (Fin 300) (image_loaded 600 400 initial_state))) = Fin 300
   \<and> ro_height (resizeOptions (handleWidthChange (Fin 300) (image_loaded 600 400 initial_state))) = Fin 200"
proof -
  let ?s = "image_loaded 600 400 initial_state"
  have od: "originalDimensions ?s = Some \<lparr>dim_width = Fin 600, dim_height = Fin 400\<rparr>"
    by (simp add: image_loaded_def)
  have cc: "completedCrop ?s = None"
    by (simp add: image_loaded_def initial_state_def)
  then have nc: "\<forall>c. completedCrop ?s = Some c \<longrightarrow> crop_width c = Fin 600 \<and> crop_height c = Fin 400"
    by simp
  have lock: "isAspectRatioLocked (resizeOptions ?s)"
    by (simp add: image_loaded_def initial_state_def)
  have pos: "(0::rat) < 600" by simp
  have r: "round ((300::rat) * 400 / 600) = 200" by code_simp
  have nat: "(600::rat) \<in> \<nat>" "(400::rat) \<in> \<nat>" "(300::rat) \<in> \<nat>" by simp_all
  have bounds: "(600::rat) < 2 ^ 50" "(400::rat) < 2 ^ 50" "(300::rat) * 400 < 2 ^ 50" by simp_all
  have notie: "of_int (round ((300::rat) * 400 / 600)) \<noteq> (300::rat) * 400 / 600 + 1 / 2"
    unfolding r by simp
  have "ro_width (resizeOptions (handleWidthChange (Fin 300) ?s)) = Fin 300
        \<and> ro_height (resizeOptions (handleWidthChange (Fin 300) ?s))
            = Fin (of_int (round ((300::rat) * 400 / 600)))"
    using locked_width_change_height [OF od nc pos lock, of 300] nat bounds notie by blast
  then show ?thesis using od cc lock unfolding r by simp
qed


section \<open>Generate and enhance: properties\<close>

lemma message_or_truthy: "fallback \<noteq> [] \<Longrightarrow> truthy (Some (message_or err fallback))"
  by (cases err) (simp_all add: message_or_def truthy_def)

lemma processAndSetImage_sets_image:
  "fst (processAndSetImage w cl u s) = Inr s' \<Longrightarrow> \<exists>x. s' = s\<lparr>editedImage := Some x\<rparr>"
  by (auto simp: processAndSetImage_def Let_def split: option.splits if_splits prod.splits sum.splits)

lemma generate_try_sets_image:
  "generate_try w cl s = Inr s' \<Longrightarrow> \<exists>x. s' = s\<lparr>editedImage := Some x\<rparr>"
  unfolding generate_try_def
  by (auto split: sum.splits if_splits option.splits dest: processAndSetImage_sets_image)

lemma enhance_try_sets_image:
  "enhance_try w cl s = Inr s' \<Longrightarrow> \<exists>x. s' = s\<lparr>editedImage := Some x\<rparr>"
  unfolding enhance_try_def
  by (auto split: sum.splits if_splits option.splits dest: processAndSetImage_sets_image)

lemma generate_resume_cases:
  "(\<exists>x. generate_resume w cl s = s\<lparr>editedImage := Some x, isLoading := False\<rparr>)
   \<or> (\<exists>m. m \<noteq> [] \<and> generate_resume w cl s = s\<lparr>error := Some m, isLoading := False\<rparr>)"
proof (cases "generate_try w cl s")
  case (Inl err)
  have "message_or err ''An unexpected error occurred.'' \<noteq> []"
    using message_or_truthy [of "''An unexpected error occurred.''" err] by (simp add: truthy_def)
  moreover have "generate_resume w cl s =
      s\<lparr>error := Some (message_or err ''An unexpected error occurred.''), isLoading := False\<rparr>"
    using Inl by (simp add: generate_resume_def)
  ultimately show ?thesis by blast
next
  case (Inr s')
  then obtain x where "s' = s\<lparr>editedImage := Some x\<rparr>"
    using generate_try_sets_image by blast
  with Inr have "generate_resume w cl s = s\<lparr>editedImage := Some x, isLoading := False\<rparr>"
    by (simp add: generate_resume_def)
  then show ?thesis by blast
qed

lemma enhance_resume_cases:
  "(\<exists>x. enhance_resume w cl s = s\<lparr>editedImage := Some x, isEnhancing := False\<rparr>)
   \<or> (\<exists>m. m \<noteq> [] \<and> enhance_resume w cl s = s\<lparr>error := Some m, isEnhancing := False\<rparr>)"
proof (cases "enhance_try w cl s")
  case (Inl err)
  have "message_or err ''An unexpected error occurred.'' \<noteq> []"
    using message_or_truthy [of "''An unexpected error occurred.''" err] by (simp add: truthy_def)
  moreover have "enhance_resume w cl s =
      s\<lparr>error := Some (message_or err ''An unexpected error occurred.''), isEnhancing := False\<rparr>"
    using Inl by (simp add: enhance_resume_def)
  ultimately show ?thesis by blast
next
  case (Inr s')
  then obtain x where "s' = s\<lparr>editedImage := Some x\<rparr>"
    using enhance_try_sets_image by blast
  with Inr have "enhance_resume w cl s = s\<lparr>editedImage := Some x, isEnhancing := False\<rparr>"
    by (simp add: enhance_resume_def)
  then show ?thesis by blast
qed


lemma generate_settles:
  assumes "originalImage s \<noteq> None \<or> truthy (croppedImageUrl s)" "trim (prompt s) \<noteq> []"
  shows "settled (handleGenerateClick w s)"
proof -
  have h: "handleGenerateClick w s = generate_resume w s (generate_begin s)"
    using assms by (auto simp: handleGenerateClick_def)
  show ?thesis
    using generate_resume_cases [of w s "generate_begin s"]
    unfolding h by (auto simp: settled_def generate_begin_def truthy_def)
qed

lemma generate_v1_settles:
  assumes "originalImage s \<noteq> None" "trim (prompt s) \<noteq> []"
  shows "settled (handleGenerateClick_v1 w s)"
proof -
  have m: "\<And>err. message_or err ''An unexpected error occurred.'' \<noteq> []"
    using message_or_truthy [of "''An unexpected error occurred.''"] by (simp add: truthy_def)
  show ?thesis
    using assms m
    by (auto simp: handleGenerateClick_v1_def settled_def truthy_def Let_def
        split: option.splits sum.splits)
qed


lemma ready_run:
  "handleGenerateClick demo_world ready_state
     = ready_state\<lparr>editedImage := Some ''data:image/png;base64,QUJD''\<rparr>"
  by (simp add: handleGenerateClick_def ready_state_def initial_state_def trim_def whitespace_def
      generate_resume_def generate_try_def generate_begin_def select_image_part_def truthy_def
      fileToGenerativePart_def demo_world_def index1_def editImageWithGemini_def Let_def
      template_def processAndSetImage_def)

lemma ready_run_without_key:
  "handleGenerateClick (demo_world\<lparr>API_KEY := None\<rparr>) ready_state
     = ready_state\<lparr>error := Some ''API key is not configured. Please set the API_KEY environment variable.''\<rparr>"
  by (simp add: handleGenerateClick_def ready_state_def initial_state_def trim_def whitespace_def
      generate_resume_def generate_try_def generate_begin_def select_image_part_def truthy_def
      fileToGenerativePart_def demo_world_def index1_def editImageWithGemini_def Let_def
      message_or_def)

section \<open>The controller: properties\<close>

lemma generate_resume_flags:
  "\<not> isLoading (generate_resume w cl s) \<and> isEnhancing (generate_resume w cl s) = isEnhancing s"
  using generate_resume_cases [of w cl s] by auto

lemma enhance_resume_flags:
  "\<not> isEnhancing (enhance_resume w cl s) \<and> isLoading (enhance_resume w cl s) = isLoading s"
  using enhance_resume_cases [of w cl s] by auto

lemma enabled_generate_passes_guard:
  "\<not> generate_disabled s \<Longrightarrow> handleGenerateClick w s = generate_resume w s (generate_begin s)"
  by (auto simp: generate_disabled_def handleGenerateClick_def)

lemma enabled_enhance_passes_guard:
  "\<not> enhance_disabled s \<Longrightarrow> handleEnhanceClick w s = enhance_resume w s (enhance_begin s)"
  by (auto simp: enhance_disabled_def handleEnhanceClick_def)

lemma applyAdjustments_flags:
  "isLoading (fst (applyAdjustments w b s)) = isLoading s
   \<and> isEnhancing (fst (applyAdjustments w b s)) = isEnhancing s"
  by (simp add: applyAdjustments_def Let_def split: option.splits sum.splits)

lemma handler_flags:
  "isLoading (handleImageChange picked s) = isLoading s \<and> isEnhancing (handleImageChange picked s) = isEnhancing s"
  "isLoading (image_loaded iw ih s) = isLoading s \<and> isEnhancing (image_loaded iw ih s) = isEnhancing s"
  "isLoading (handleApplyCrop rendered s) = isLoading s \<and> isEnhancing (handleApplyCrop rendered s) = isEnhancing s"
  "isLoading (handleResetCrop s) = isLoading s \<and> isEnhancing (handleResetCrop s) = isEnhancing s"
  "isLoading (reset_loaded iw ih s) = isLoading s \<and> isEnhancing (reset_loaded iw ih s) = isEnhancing s"
  "isLoading (handleResizeModeChange m s) = isLoading s \<and> isEnhancing (handleResizeModeChange m s) = isEnhancing s"
  "isLoading (handlePercentageChange v s) = isLoading s \<and> isEnhancing (handlePercentageChange v s) = isEnhancing s"
  "isLoading (handleWidthChange v s) = isLoading s \<and> isEnhancing (handleWidthChange v s) = isEnhancing s"
  "isLoading (handleHeightChange v s) = isLoading s \<and> isEnhancing (handleHeightChange v s) = isEnhancing s"
  "isLoading (toggleAspectRatioLock s) = isLoading s \<and> isEnhancing (toggleAspectRatioLock s) = isEnhancing s"
  by (simp_all add: handleImageChange_def image_loaded_def handleApplyCrop_def handleResetCrop_def
      reset_loaded_def handleResizeModeChange_def handlePercentageChange_def handleWidthChange_def
      handleHeightChange_def toggleAspectRatioLock_def Let_def split: option.splits prod.splits)

lemma on_ui_keeps_match:
  assumes "flags_match c" "on_ui f c = Some c'"
    "isLoading (f (ui c)) = isLoading (ui c) \<and> isEnhancing (f (ui c)) = isEnhancing (ui c)"
  shows "flags_match c'"
  using assms by (auto simp: on_ui_def flags_match_def split: list.splits pending.splits)

lemma guarded_on_ui_keeps_match:
  assumes "flags_match c" "(if b then None else on_ui f c) = Some c'"
    "isLoading (f (ui c)) = isLoading (ui c) \<and> isEnhancing (f (ui c)) = isEnhancing (ui c)"
  shows "flags_match c'"
  using assms on_ui_keeps_match by (cases b) auto

lemma click_generate_keeps_match:
  assumes "flags_match c" "\<not> generate_disabled (ui c)"
  shows "flags_match \<lparr>ui = generate_begin (ui c), inflight = inflight c @ [Generating (ui c)]\<rparr>"
proof -
  have "inflight c = []"
    using assms by (auto simp: flags_match_def generate_disabled_def split: list.splits pending.splits)
  then show ?thesis by (simp add: flags_match_def generate_begin_def)
    (use assms in \<open>simp add: generate_disabled_def\<close>)
qed

lemma click_enhance_keeps_match:
  assumes "flags_match c" "\<not> enhance_disabled (ui c)"
  shows "flags_match \<lparr>ui = enhance_begin (ui c), inflight = inflight c @ [Enhancing (ui c)]\<rparr>"
proof -
  have "inflight c = []"
    using assms by (auto simp: flags_match_def enhance_disabled_def split: list.splits pending.splits)
  then show ?thesis by (simp add: flags_match_def enhance_begin_def)
    (use assms in \<open>simp add: enhance_disabled_def\<close>)
qed

lemma settle_returns_to_idle:
  assumes "flags_match c" "step w c (Settle i) = Some c'"
  shows "idle (ui c') \<and> inflight c' = []"
proof -
  have i: "i < length (inflight c)"
    and c': "c' = \<lparr>ui = resume w (inflight c ! i) (ui c),
                    inflight = take i (inflight c) @ drop (Suc i) (inflight c)\<rparr>"
    using assms(2) by (auto simp: step_def split: if_splits)
  from assms(1) i obtain p where p: "inflight c = [p]" and i0: "i = 0"
    by (cases "inflight c") (auto simp: flags_match_def split: list.splits pending.splits)
  show ?thesis
  proof (cases p)
    case (Generating cl)
    with p assms(1) have "\<not> isEnhancing (ui c)" by (simp add: flags_match_def)
    with Generating p i0 c' show ?thesis
      using generate_resume_flags [of w cl "ui c"] by (simp add: idle_def resume_def)
  next
    case (Enhancing cl)
    with p assms(1) have "\<not> isLoading (ui c)" by (simp add: flags_match_def)
    with Enhancing p i0 c' show ?thesis
      using enhance_resume_flags [of w cl "ui c"] by (simp add: idle_def resume_def)
  qed
qed

lemma step_keeps_match:
  assumes "flags_match c" "step w c ev = Some c'"
  shows "flags_match c'"
proof (cases ev)
  case (Settle i)
  with assms have "idle (ui c') \<and> inflight c' = []" using settle_returns_to_idle by blast
  then show ?thesis by (simp add: flags_match_def idle_def)
next
  case GenerateClick
  with assms show ?thesis
    using click_generate_keeps_match [of c] by (auto simp: step_def split: if_splits)
next
  case EnhanceClick
  with assms show ?thesis
    using click_enhance_keeps_match [of c] by (auto simp: step_def split: if_splits)
next
  case (Adjust b)
  with assms show ?thesis
    using on_ui_keeps_match [OF assms(1), of "\<lambda>s. fst (applyAdjustments w b s)" c'] applyAdjustments_flags
    by (simp add: step_def)
qed (use assms in \<open>auto simp: step_def handler_flags
      elim!: guarded_on_ui_keeps_match [rotated] on_ui_keeps_match [rotated]\<close>)

lemma reachable_flags_match: "reachable w c \<Longrightarrow> flags_match c"
proof (induction rule: reachable.induct)
  case reach_init
  show ?case by (simp add: flags_match_def initial_state_def)
next
  case (reach_step c ev c')
  then show ?case using step_keeps_match by blast
qed


lemma idle_generate: "idle s \<Longrightarrow> idle (handleGenerateClick w s)"
  using generate_resume_flags [of w s "generate_begin s"]
  by (simp add: handleGenerateClick_def idle_def generate_begin_def)

lemma idle_enhance: "idle s \<Longrightarrow> idle (handleEnhanceClick w s)"
  using enhance_resume_flags [of w s "enhance_begin s"]
  by (simp add: handleEnhanceClick_def idle_def enhance_begin_def)

lemma busy_can_settle:
  assumes "flags_match c" "\<not> idle (ui c)"
  shows "\<exists>c'. step w c (Settle 0) = Some c'"
proof -
  have "inflight c \<noteq> []"
    using assms by (auto simp: flags_match_def idle_def)
  then show ?thesis by (simp add: step_def)
qed

lemma match_excludes_both: "flags_match c \<Longrightarrow> \<not> (isLoading (ui c) \<and> isEnhancing (ui c))"
  by (auto simp: flags_match_def split: list.splits pending.splits)


text \<open>
  C3. In every reachable state of the controller at most one of \<open>isLoading\<close> and
  \<open>isEnhancing\<close> is true. Every suspended generate or enhance handler can resume, and when
  it does, on success as on failure, its flag is cleared and the controller is idle
  again with nothing in flight; a whole invocation that starts idle ends idle.
\<close>

theorem one_request_in_flight_and_back_to_idle:
  "(reachable w c \<longrightarrow> \<not> (isLoading (ui c) \<and> isEnhancing (ui c)))
   \<and> (reachable w c \<and> step w c (Settle i) = Some c' \<longrightarrow> idle (ui c') \<and> inflight c' = [])
   \<and> (reachable w c \<and> \<not> idle (ui c) \<longrightarrow> (\<exists>c''. step w c (Settle 0) = Some c''))
   \<and> \<not> isLoading (generate_resume w cl s) \<and> \<not> isEnhancing (enhance_resume w cl s)
   \<and> (idle s \<longrightarrow> idle (handleGenerateClick w s) \<and> idle (handleEnhanceClick w s))"
  using reachable_flags_match [of w c] match_excludes_both [of c] settle_returns_to_idle [of c w i c']
    busy_can_settle [of c w] generate_resume_flags [of w cl s] enhance_resume_flags [of w cl s]
    idle_generate [of s w] idle_enhance [of s w]
  by blast

lemma reachable_ready: "reachable demo_world \<lparr>ui = ready_state, inflight = []\<rparr>"
proof -
  let ?f = "\<lparr>file_name = ''a.png'', file_type = ''image/png''\<rparr>"
  let ?c0 = "\<lparr>ui = initial_state, inflight = []\<rparr>"
  let ?c1 = "\<lparr>ui = initial_state\<lparr>originalImage := Some ?f\<rparr>, inflight = []\<rparr>"
  have r0: "reachable demo_world ?c0" by (rule reach_init)
  have "step demo_world ?c0 (ImageChange (Some ?f)) = Some ?c1"
    by (simp add: step_def on_ui_def handleImageChange_def initial_state_def)
  with r0 have r1: "reachable demo_world ?c1" by (rule reach_step)
  have "step demo_world ?c1 (PromptChange ''make it blue'') = Some \<lparr>ui = ready_state, inflight = []\<rparr>"
    by (simp add: step_def on_ui_def ready_state_def)
  with r1 show ?thesis by (rule reach_step)
qed

lemma reachable_generating: "reachable demo_world generating_config"
proof -
  have "\<not> generate_disabled ready_state"
    by (simp add: generate_disabled_def ready_state_def initial_state_def trim_def whitespace_def)
  then have "step demo_world \<lparr>ui = ready_state, inflight = []\<rparr> GenerateClick = Some generating_config"
    by (simp add: step_def generating_config_def)
  with reachable_ready show ?thesis by (rule reach_step)
qed

theorem one_request_in_flight_and_back_to_idle_witness:
  "reachable demo_world generating_config
   \<and> isLoading (ui generating_config) \<and> \<not> isEnhancing (ui generating_config)
   \<and> (\<exists>c'. step demo_world generating_config (Settle 0) = Some c' \<and> idle (ui c') \<and> inflight c' = [])
   \<and> idle ready_state \<and> idle (handleGenerateClick demo_world ready_state)
   \<and> idle (handleEnhanceClick demo_world ready_state)"
proof -
  have busy: "isLoading (ui generating_config)"
    by (simp add: generating_config_def generate_begin_def)
  then have nidle: "\<not> idle (ui generating_config)" by (simp add: idle_def)
  have rest: "idle ready_state"
    by (simp add: idle_def ready_state_def initial_state_def)
  note t = one_request_in_flight_and_back_to_idle [where w = demo_world and c = generating_config]
  from t reachable_generating nidle obtain c' where
    c': "step demo_world generating_config (Settle 0) = Some c'" by blast
  have "idle (ui c') \<and> inflight c' = []"
    using one_request_in_flight_and_back_to_idle
      [of demo_world generating_config 0 c' ready_state ready_state] reachable_generating c'
    by blast
  moreover have "\<not> isEnhancing (ui generating_config)"
    using t reachable_generating busy by blast
  moreover have "idle (handleGenerateClick demo_world ready_state) \<and> idle (handleEnhanceClick demo_world ready_state)"
    using one_request_in_flight_and_back_to_idle [where w = demo_world and s = ready_state] rest
    by blast
  ultimately show ?thesis using reachable_generating busy c' rest by blast
qed

section \<open>One generate request: properties\<close>

text \<open>
  While a request is in flight the state stays as the handler cleared it: the only events
  that write the edited image or the error are the two buttons, which are disabled, and an
  upload, which clears both.
\<close>

lemma handler_cleared:
  "cleared s \<Longrightarrow> cleared (handleImageChange picked s)"
  "cleared s \<Longrightarrow> cleared (image_loaded iw ih s)"
  "cleared s \<Longrightarrow> cleared (handleApplyCrop rendered s)"
  "cleared s \<Longrightarrow> cleared (handleResetCrop s)"
  "cleared s \<Longrightarrow> cleared (reset_loaded iw ih s)"
  "cleared s \<Longrightarrow> cleared (handleResizeModeChange m s)"
  "cleared s \<Longrightarrow> cleared (handlePercentageChange v s)"
  "cleared s \<Longrightarrow> cleared (handleWidthChange v s)"
  "cleared s \<Longrightarrow> cleared (handleHeightChange v s)"
  "cleared s \<Longrightarrow> cleared (toggleAspectRatioLock s)"
  "cleared s \<Longrightarrow> cleared (fst (applyAdjustments w b s))"
  by (simp_all add: cleared_def handleImageChange_def image_loaded_def handleApplyCrop_def
      handleResetCrop_def reset_loaded_def handleResizeModeChange_def handlePercentageChange_def
      handleWidthChange_def handleHeightChange_def toggleAspectRatioLock_def applyAdjustments_def
      Let_def split: option.splits prod.splits sum.splits)

lemma step_keeps_cleared:
  assumes "flags_match c" "inflight c \<noteq> [] \<longrightarrow> cleared (ui c)" "step w c ev = Some c'"
  shows "inflight c' \<noteq> [] \<longrightarrow> cleared (ui c')"
proof (cases ev)
  case (Settle i)
  with assms have "inflight c' = []" using settle_returns_to_idle by blast
  then show ?thesis by simp
next
  case GenerateClick
  with assms show ?thesis
    by (auto simp: step_def cleared_def generate_begin_def split: if_splits)
next
  case EnhanceClick
  with assms show ?thesis
    by (auto simp: step_def cleared_def enhance_begin_def split: if_splits)
next
  case (PromptChange p)
  with assms show ?thesis
    by (auto simp: step_def on_ui_def cleared_def split: if_splits)
next
  case OpenCrop
  with assms show ?thesis
    by (auto simp: step_def on_ui_def cleared_def split: if_splits)
next
  case CancelCrop
  with assms show ?thesis
    by (auto simp: step_def on_ui_def cleared_def split: if_splits)
next
  case (CropComplete pc)
  with assms show ?thesis
    by (auto simp: step_def on_ui_def cleared_def split: if_splits)
next
  case (ContrastChange v)
  with assms show ?thesis
    by (auto simp: step_def on_ui_def cleared_def split: if_splits)
qed (use assms in \<open>auto simp: step_def on_ui_def handler_cleared split: if_splits\<close>)

lemma reachable_cleared: "reachable w c \<Longrightarrow> inflight c \<noteq> [] \<longrightarrow> cleared (ui c)"
proof (induction rule: reachable.induct)
  case reach_init
  show ?case by simp
next
  case (reach_step c ev c')
  then show ?case using step_keeps_cleared reachable_flags_match by blast
qed

lemma settle_is_settled:
  assumes "reachable w c" "step w c (Settle i) = Some c'"
  shows "settled (ui c')"
proof -
  have fm: "flags_match c" using assms(1) by (rule reachable_flags_match)
  have i: "i < length (inflight c)"
    and c': "c' = \<lparr>ui = resume w (inflight c ! i) (ui c),
                    inflight = take i (inflight c) @ drop (Suc i) (inflight c)\<rparr>"
    using assms(2) by (auto simp: step_def split: if_splits)
  from fm i obtain p where p: "inflight c = [p]" and i0: "i = 0"
    by (cases "inflight c") (auto simp: flags_match_def split: list.splits pending.splits)
  have cl: "editedImage (ui c) = None" "error (ui c) = None"
    using reachable_cleared [OF assms(1)] p by (simp_all add: cleared_def)
  show ?thesis
  proof (cases p)
    case (Generating cl')
    then have "ui c' = generate_resume w cl' (ui c)" using c' p i0 by (simp add: resume_def)
    then show ?thesis
      using generate_resume_cases [of w cl' "ui c"] cl by (auto simp: settled_def truthy_def)
  next
    case (Enhancing cl')
    with p fm have "\<not> isLoading (ui c)" by (simp add: flags_match_def)
    moreover have "ui c' = enhance_resume w cl' (ui c)" using Enhancing c' p i0 by (simp add: resume_def)
    ultimately show ?thesis
      using enhance_resume_cases [of w cl' "ui c"] cl by (auto simp: settled_def truthy_def)
  qed
qed

lemma enabled_generate_settles:
  assumes "\<not> generate_disabled s"
  shows "prompt s \<noteq> [] \<and> originalImage s \<noteq> None \<and> settled (handleGenerateClick w s)"
proof -
  have "trim (prompt s) \<noteq> []" "originalImage s \<noteq> None"
    using assms by (simp_all add: generate_disabled_def)
  moreover from this have "prompt s \<noteq> []" by (auto simp: trim_def)
  ultimately show ?thesis using generate_settles [of s w] by simp
qed


text \<open>
  C1. For every present image and non-empty prompt, one invocation of
  \<open>handleGenerateClick\<close> (in either version of the component) ends with exactly one of an
  edited image and a non-empty error message in the state, and with the in-flight flag
  cleared. The handler and its button test the prompt with \<^verbatim>\<open>trim()\<close>, so a prompt is
  non-empty when it is so after trimming: every click the button delivers has a present
  image and such a prompt. In the running controller the suspended handler, when it
  resumes, leaves exactly one of the two and idle flags, whatever events came between.
  Every awaited promise is taken to settle.
\<close>

theorem generate_ends_with_image_or_error:
  "((originalImage s \<noteq> None \<or> truthy (croppedImageUrl s)) \<and> trim (prompt s) \<noteq> []
      \<longrightarrow> settled (handleGenerateClick w s))
   \<and> (originalImage s \<noteq> None \<and> trim (prompt s) \<noteq> [] \<longrightarrow> settled (handleGenerateClick_v1 w s))
   \<and> (step w c GenerateClick \<noteq> None \<longrightarrow>
        originalImage (ui c) \<noteq> None \<and> prompt (ui c) \<noteq> [] \<and> settled (handleGenerateClick w (ui c)))
   \<and> (reachable w c \<and> step w c (Settle i) = Some c' \<longrightarrow> settled (ui c'))"
proof -
  have "step w c GenerateClick \<noteq> None \<Longrightarrow> \<not> generate_disabled (ui c)"
    by (auto simp: step_def split: if_splits)
  then show ?thesis
    using generate_settles [of s w] generate_v1_settles [of s w] enabled_generate_settles [of "ui c" w]
      settle_is_settled [of w c i c']
    by blast
qed

theorem generate_ends_with_image_or_error_witness:
  "originalImage ready_state \<noteq> None \<and> trim (prompt ready_state) \<noteq> []
   \<and> settled (handleGenerateClick demo_world ready_state)
   \<and> editedImage (handleGenerateClick demo_world ready_state) = Some ''data:image/png;base64,QUJD''
   \<and> error (handleGenerateClick demo_world ready_state) = None
   \<and> settled (handleGenerateClick (demo_world\<lparr>API_KEY := None\<rparr>) ready_state)
   \<and> editedImage (handleGenerateClick (demo_world\<lparr>API_KEY := None\<rparr>) ready_state) = None
   \<and> settled (handleGenerateClick_v1 demo_world ready_state)
   \<and> step demo_world \<lparr>ui = ready_state, inflight = []\<rparr> GenerateClick = Some generating_config
   \<and> reachable demo_world generating_config
   \<and> (\<exists>c'. step demo_world generating_config (Settle 0) = Some c' \<and> settled (ui c'))"
proof -
  have a: "originalImage ready_state \<noteq> None" "trim (prompt ready_state) \<noteq> []"
    by (simp_all add: ready_state_def initial_state_def trim_def whitespace_def)
  have "settled (handleGenerateClick demo_world ready_state)"
    and "settled (handleGenerateClick_v1 demo_world ready_state)"
    using generate_ends_with_image_or_error [where s = ready_state and w = demo_world] a by blast+
  moreover have "settled (handleGenerateClick (demo_world\<lparr>API_KEY := None\<rparr>) ready_state)"
    using generate_ends_with_image_or_error [where s = ready_state and w = "demo_world\<lparr>API_KEY := None\<rparr>"] a
    by blast
  moreover have click: "step demo_world \<lparr>ui = ready_state, inflight = []\<rparr> GenerateClick = Some generating_config"
    using a by (simp add: step_def generating_config_def generate_disabled_def ready_state_def
        initial_state_def)
  moreover obtain c' where c': "step demo_world generating_config (Settle 0) = Some c'"
    by (simp add: step_def generating_config_def)
  moreover have "settled (ui c')"
    using generate_ends_with_image_or_error [where w = demo_world and c = generating_config and i = 0 and c' = c']
      reachable_generating c' by blast
  ultimately show ?thesis
    using a reachable_generating
    by (simp add: ready_run ready_run_without_key) (auto simp: ready_state_def initial_state_def)
qed


end
